theory Spec2Isabelle
  imports Complex_Main "HOL-Library.Stream"
begin

section \<open>Data model of \<^verbatim>\<open>highway_simulation.py\<close>\<close>

text \<open>
  Python floats are modelled as reals (rounding is not modelled); \<^verbatim>\<open>float('inf')\<close>, which
  \<^verbatim>\<open>_get_distance\<close> returns and \<^verbatim>\<open>min_distance\<close> starts from, is a constructor of its own.
  Python's unbounded integers are \<open>int\<close>.
\<close>

datatype Lane = RIGHT | MIDDLE | LEFT

fun lane_value :: "Lane \<Rightarrow> int" where
  "lane_value RIGHT = 0"
| "lane_value MIDDLE = 1"
| "lane_value LEFT = 2"

datatype py_error = ValueError

text \<open>\<^verbatim>\<open>Lane(v)\<close>: the enum lookup raises ValueError for a value that is no member.\<close>

definition Lane_of :: "int \<Rightarrow> py_error + Lane" where
  "Lane_of v = (if v = 0 then Inr RIGHT else if v = 1 then Inr MIDDLE
                else if v = 2 then Inr LEFT else Inl ValueError)"

record Car =
  position :: real
  speed :: real
  lane :: Lane
  max_speed :: real
  follows_bad_practice :: bool

record HighwaySimulation =
  num_cars :: int
  highway_length :: real
  bad_practice_ratio :: real
  spawn_probability :: real
  cars :: "Car list"
  time_step :: real
  traffic_jam_detected :: bool

datatype distance = Fin real | PInf

fun dist_less :: "distance \<Rightarrow> distance \<Rightarrow> bool" where
  "dist_less (Fin a) (Fin b) = (a < b)"
| "dist_less (Fin a) PInf = True"
| "dist_less PInf d = False"

subsection \<open>The process-global generator of the \<^verbatim>\<open>random\<close> module\<close>

text \<open>
  The module \<^verbatim>\<open>random\<close> is not part of the repository. Its state is modelled as the
  values its next calls will return: \<open>floats\<close> for the float-valued calls
  (\<^verbatim>\<open>uniform\<close>, \<^verbatim>\<open>triangular\<close>, \<^verbatim>\<open>random\<close>), in call order, and \<open>lanes\<close> for the
  expression \<^verbatim>\<open>Lane(random.randint(0, 2))\<close>, whose value is one of the three lanes by the
  contract of \<^verbatim>\<open>randint\<close>. The arguments of a call only constrain the range of
  the returned value; where a property needs the range it is a hypothesis.
  Every function that draws takes the generator state and returns it advanced: the
  source calls the module-level functions, so the state is shared by the whole process.
\<close>

record rng =
  floats :: "real stream"
  lanes :: "Lane stream"

definition next_float :: "rng \<Rightarrow> real \<times> rng" where
  "next_float g = (shd (floats g), g\<lparr>floats := stl (floats g)\<rparr>)"

definition random_uniform :: "real \<Rightarrow> real \<Rightarrow> rng \<Rightarrow> real \<times> rng" where
  "random_uniform a b g = next_float g"

definition random_triangular :: "real \<Rightarrow> real \<Rightarrow> real \<Rightarrow> rng \<Rightarrow> real \<times> rng" where
  "random_triangular low high mode g = next_float g"

definition random_random :: "rng \<Rightarrow> real \<times> rng" where
  "random_random g = next_float g"

definition random_lane :: "rng \<Rightarrow> Lane \<times> rng" where
  "random_lane g = (shd (lanes g), g\<lparr>lanes := stl (lanes g)\<rparr>)"

section \<open>Construction\<close>

text \<open>\<^verbatim>\<open>_create_car(position=None, lane=None)\<close>.\<close>

definition create_car ::
  "HighwaySimulation \<Rightarrow> real option \<Rightarrow> Lane option \<Rightarrow> rng \<Rightarrow> Car \<times> rng" where
  "create_car s pos lan g =
     (let (p, g1) = (case pos of None \<Rightarrow> random_uniform 0 (highway_length s) g
                               | Some p \<Rightarrow> (p, g));
          (m, g2) = random_triangular 90 130 128 g1;
          (u, g3) = random_uniform (9/10) (98/100) g2;
          (l, g4) = (case lan of Some l \<Rightarrow> (l, g3) | None \<Rightarrow> random_lane g3);
          (r, g5) = random_random g4
      in (\<lparr>position = p, speed = m * u, lane = l, max_speed = m,
           follows_bad_practice = (r < bad_practice_ratio s)\<rparr>, g5))"

text \<open>The loop of \<^verbatim>\<open>_initialize_cars\<close>: \<^verbatim>\<open>range(num_cars)\<close> is empty for a negative count.\<close>

fun initialize_loop :: "nat \<Rightarrow> HighwaySimulation \<Rightarrow> rng \<Rightarrow> HighwaySimulation \<times> rng" where
  "initialize_loop 0 s g = (s, g)"
| "initialize_loop (Suc n) s g =
     (let (c, g') = create_car s None None g
      in initialize_loop n (s\<lparr>cars := cars s @ [c]\<rparr>) g')"

definition initialize_cars :: "HighwaySimulation \<Rightarrow> rng \<Rightarrow> HighwaySimulation \<times> rng" where
  "initialize_cars s g =
     (let (s1, g1) = initialize_loop (nat (num_cars s)) (s\<lparr>cars := []\<rparr>) g
      in (s1\<lparr>cars := sort_key position (cars s1)\<rparr>, g1))"

text \<open>
  \<^verbatim>\<open>HighwaySimulation.__init__(num_cars, highway_length, bad_practice_ratio,
  spawn_probability)\<close>. The result is a sum so that a raise of the constructor would be a
  value; the source has no \<^verbatim>\<open>raise\<close> on this path and every call it makes returns.
\<close>

definition HighwaySimulation_init ::
  "int \<Rightarrow> real \<Rightarrow> real \<Rightarrow> real \<Rightarrow> rng \<Rightarrow> py_error + HighwaySimulation \<times> rng" where
  "HighwaySimulation_init n len ratio sp g =
     Inr (initialize_cars
       \<lparr>num_cars = n, highway_length = len, bad_practice_ratio = ratio,
        spawn_probability = sp, cars = [], time_step = 1/10,
        traffic_jam_detected = False\<rparr> g)"

section \<open>Queries on the live collection\<close>

text \<open>\<^verbatim>\<open>sorted\<close> and \<^verbatim>\<open>list.sort\<close> are stable, as \<open>sort_key\<close> is.\<close>

definition get_cars_in_lane :: "HighwaySimulation \<Rightarrow> Lane \<Rightarrow> Car list" where
  "get_cars_in_lane s l = sort_key position (filter (\<lambda>c. lane c = l) (cars s))"

definition get_distance :: "Car \<Rightarrow> Car \<Rightarrow> distance" where
  "get_distance car1 car2 =
     (if position car2 > position car1 then Fin (position car2 - position car1) else PInf)"

definition is_car_ahead :: "Car \<Rightarrow> Car \<Rightarrow> bool" where
  "is_car_ahead car1 car2 =
     (if lane car2 \<noteq> lane car1 then False else position car2 > position car1)"

text \<open>
  The loop over the target lane's cars, written out identically in
  \<^verbatim>\<open>_can_pass_on_left\<close> and in \<^verbatim>\<open>_should_move_to_right\<close> (\<^verbatim>\<open>safe_distance = 50.0\<close>).
\<close>

fun target_scan :: "Car \<Rightarrow> Car list \<Rightarrow> bool" where
  "target_scan car [] = True"
| "target_scan car (other # rest) =
     (if is_car_ahead car other
      then (if dist_less (get_distance car other) (Fin 50) then False
            else target_scan car rest)
      else (if dist_less (get_distance other car) (Fin 50) then False
            else target_scan car rest))"

text \<open>
  In both functions the guard on the car's lane comes right before the conversion
  \<^verbatim>\<open>Lane(car.lane.value \<plusminus> 1)\<close>, so the target lane is read off by cases.
\<close>

definition can_pass_on_left :: "HighwaySimulation \<Rightarrow> Car \<Rightarrow> bool" where
  "can_pass_on_left s car =
     (case lane car of
        LEFT \<Rightarrow> False
      | MIDDLE \<Rightarrow> target_scan car (get_cars_in_lane s LEFT)
      | RIGHT \<Rightarrow> target_scan car (get_cars_in_lane s MIDDLE))"

definition should_move_to_right :: "HighwaySimulation \<Rightarrow> Car \<Rightarrow> bool" where
  "should_move_to_right s car =
     (case lane car of
        RIGHT \<Rightarrow> False
      | MIDDLE \<Rightarrow> target_scan car (get_cars_in_lane s RIGHT)
      | LEFT \<Rightarrow> target_scan car (get_cars_in_lane s MIDDLE))"

text \<open>
  The search for the car directly ahead, written out identically in \<^verbatim>\<open>is_blocked\<close>,
  \<^verbatim>\<open>_update_car_lane\<close> and \<^verbatim>\<open>_update_car_speed\<close>: the loop state is
  \<^verbatim>\<open>(car_ahead, min_distance)\<close>.
\<close>

fun ahead_loop :: "Car \<Rightarrow> Car list \<Rightarrow> Car option \<Rightarrow> distance \<Rightarrow> Car option \<times> distance" where
  "ahead_loop car [] ca md = (ca, md)"
| "ahead_loop car (other # rest) ca md =
     (if is_car_ahead car other
      then (let d = get_distance car other
            in if dist_less d md then ahead_loop car rest (Some other) d
               else ahead_loop car rest ca md)
      else ahead_loop car rest ca md)"

definition find_car_ahead :: "HighwaySimulation \<Rightarrow> Car \<Rightarrow> Car option" where
  "find_car_ahead s car = fst (ahead_loop car (get_cars_in_lane s (lane car)) None PInf)"

definition is_blocked :: "HighwaySimulation \<Rightarrow> Car \<Rightarrow> bool" where
  "is_blocked s car =
     (case find_car_ahead s car of
        None \<Rightarrow> False
      | Some a \<Rightarrow>
          if speed a \<ge> speed car then False
          else if can_pass_on_left s car then False
          else if lane car = LEFT then True
          else if dist_less (get_distance car a) (Fin 50) then True
          else False)"

section \<open>The per-car updates\<close>

text \<open>
  \<^verbatim>\<open>_update_car_lane\<close>: the car is passed by value together with the live collection
  it is an element of; the result is the car after the update. No function of the source
  compares cars by identity.
\<close>

definition move_lane :: "Car \<Rightarrow> int \<Rightarrow> rng \<Rightarrow> py_error + Car \<times> rng" where
  "move_lane car d g =
     (case Lane_of (lane_value (lane car) + d) of
        Inl e \<Rightarrow> Inl e
      | Inr l \<Rightarrow> Inr (car\<lparr>lane := l\<rparr>, g))"

definition update_car_lane :: "HighwaySimulation \<Rightarrow> rng \<Rightarrow> Car \<Rightarrow> py_error + Car \<times> rng" where
  "update_car_lane s g car =
     (if \<not> follows_bad_practice car \<and> should_move_to_right s car
      then move_lane car (- 1) g
      else
        let (stay, g1) =
              (if follows_bad_practice car \<and> lane car = MIDDLE
               then (let (u, g') = random_random g in (u < 7/10, g'))
               else (False, g))
        in if stay then Inr (car, g1)
           else
             let car_ahead = find_car_ahead s car
             in if (case car_ahead of None \<Rightarrow> False | Some a \<Rightarrow> speed a < speed car)
                   \<and> can_pass_on_left s car
                then move_lane car 1 g1
                else if \<not> follows_bad_practice car \<and> lane car \<noteq> RIGHT
                        \<and> should_move_to_right s car
                then move_lane car (- 1) g1
                else Inr (car, g1))"

definition update_car_speed :: "HighwaySimulation \<Rightarrow> Car \<Rightarrow> Car" where
  "update_car_speed s car =
     (let v = (case find_car_ahead s car of
                 None \<Rightarrow> min (speed car + 2 * time_step s) (max_speed car)
               | Some a \<Rightarrow>
                   let d = get_distance car a;
                       safe_distance = 30 + speed car * (1/2)
                   in if dist_less d (Fin safe_distance)
                      then max (speed a - 5) (speed car - 5 * time_step s)
                      else if dist_less d (Fin (safe_distance * (3/2)))
                      then speed a
                      else min (speed car + 2 * time_step s) (max_speed car))
      in car\<lparr>speed := max 0 v\<rparr>)"

definition update_car_position :: "HighwaySimulation \<Rightarrow> Car \<Rightarrow> Car" where
  "update_car_position s car =
     car\<lparr>position := position car + speed car * time_step s * (1000 / 3600)\<rparr>"

section \<open>Spawning\<close>

definition has_space_for_spawn :: "HighwaySimulation \<Rightarrow> real \<Rightarrow> Lane \<Rightarrow> bool" where
  "has_space_for_spawn s pos l =
     list_all (\<lambda>other. \<not> (lane other = l \<and> \<bar>position other - pos\<bar> < 30)) (cars s)"

fun spawn_loop :: "nat \<Rightarrow> HighwaySimulation \<Rightarrow> rng \<Rightarrow> HighwaySimulation \<times> rng" where
  "spawn_loop 0 s g = (s, g)"
| "spawn_loop (Suc n) s g =
     (let (u, g1) = random_random g
      in if u < spawn_probability s
         then (let (l, g2) = random_lane g1;
                   (p, g3) = random_uniform 0 20 g2
               in if has_space_for_spawn s p l
                  then (let (c, g4) = create_car s (Some p) (Some l) g3
                        in spawn_loop n (s\<lparr>cars := cars s @ [c]\<rparr>) g4)
                  else spawn_loop n s g3)
         else spawn_loop n s g1)"

definition spawn_new_cars_if_needed :: "HighwaySimulation \<Rightarrow> rng \<Rightarrow> HighwaySimulation \<times> rng" where
  "spawn_new_cars_if_needed s g =
     spawn_loop (nat (num_cars s - int (length (cars s)))) s g"

section \<open>One tick\<close>

text \<open>
  A pass \<^verbatim>\<open>for car in self.cars: f(car)\<close> mutates the cars in place, in list order, each
  call reading the live collection: the cars already updated, the car itself, the cars
  still to come.
\<close>

fun lane_pass_loop ::
  "HighwaySimulation \<Rightarrow> Car list \<Rightarrow> Car list \<Rightarrow> rng \<Rightarrow> py_error + Car list \<times> rng" where
  "lane_pass_loop s upd [] g = Inr (upd, g)"
| "lane_pass_loop s upd (car # rest) g =
     (case update_car_lane (s\<lparr>cars := upd @ car # rest\<rparr>) g car of
        Inl e \<Rightarrow> Inl e
      | Inr (car', g') \<Rightarrow> lane_pass_loop s (upd @ [car']) rest g')"

fun speed_pass_loop :: "HighwaySimulation \<Rightarrow> Car list \<Rightarrow> Car list \<Rightarrow> Car list" where
  "speed_pass_loop s upd [] = upd"
| "speed_pass_loop s upd (car # rest) =
     speed_pass_loop s (upd @ [update_car_speed (s\<lparr>cars := upd @ car # rest\<rparr>) car]) rest"

text \<open>The three passes of \<^verbatim>\<open>step\<close>: lanes, speeds, positions.\<close>

definition update_passes :: "HighwaySimulation \<Rightarrow> rng \<Rightarrow> py_error + Car list \<times> rng" where
  "update_passes s g =
     (case lane_pass_loop s [] (cars s) g of
        Inl e \<Rightarrow> Inl e
      | Inr (cs1, g1) \<Rightarrow>
          Inr (map (update_car_position s) (speed_pass_loop s [] cs1), g1))"

text \<open>The jam check at the end of \<^verbatim>\<open>step\<close>.\<close>

fun chain_close :: "Car list \<Rightarrow> bool" where
  "chain_close (a # b # rest) =
     (if dist_less (get_distance a b) (Fin 100) then True else chain_close (b # rest))"
| "chain_close _ = False"

fun jam_lanes :: "Car list \<Rightarrow> Lane list \<Rightarrow> bool" where
  "jam_lanes blocked [] = False"
| "jam_lanes blocked (l # ls) =
     (let lane_blocked = filter (\<lambda>c. lane c = l) blocked
      in if length lane_blocked \<ge> 2 \<and> chain_close (sort_key position lane_blocked)
         then True
         else jam_lanes blocked ls)"

definition check_traffic_jam :: "HighwaySimulation \<Rightarrow> HighwaySimulation" where
  "check_traffic_jam s =
     (let blocked_cars = filter (is_blocked s) (cars s)
      in if length blocked_cars \<ge> 3 \<and> jam_lanes blocked_cars [LEFT, MIDDLE, RIGHT]
         then s\<lparr>traffic_jam_detected := True\<rparr>
         else s)"

definition step :: "HighwaySimulation \<Rightarrow> rng \<Rightarrow> py_error + HighwaySimulation \<times> rng" where
  "step s g =
     (case update_passes s g of
        Inl e \<Rightarrow> Inl e
      | Inr (cs3, g1) \<Rightarrow>
          let s4 = s\<lparr>cars := filter (\<lambda>c. position c \<le> highway_length s) cs3\<rparr>;
              (s5, g2) = spawn_new_cars_if_needed s4 g1;
              s6 = s5\<lparr>cars := sort_key position (cars s5)\<rparr>
          in Inr (check_traffic_jam s6, g2))"

section \<open>A run\<close>

text \<open>
  \<^verbatim>\<open>for step in range(max_steps)\<close>: the first argument counts the iterations left, the
  second is the loop variable \<^verbatim>\<open>step\<close>.
\<close>

fun run_loop ::
  "nat \<Rightarrow> nat \<Rightarrow> HighwaySimulation \<Rightarrow> rng \<Rightarrow> py_error + bool \<times> HighwaySimulation \<times> rng" where
  "run_loop 0 k s g = Inr (False, s, g)"
| "run_loop (Suc n) k s g =
     (case step s g of
        Inl e \<Rightarrow> Inl e
      | Inr (s', g') \<Rightarrow>
          if k > 100 \<and> traffic_jam_detected s' then Inr (True, s', g')
          else run_loop n (Suc k) s' g')"

definition run ::
  "HighwaySimulation \<Rightarrow> rng \<Rightarrow> int \<Rightarrow> py_error + bool \<times> HighwaySimulation \<times> rng" where
  "run s g max_steps = run_loop (nat max_steps) 0 (s\<lparr>traffic_jam_detected := False\<rparr>) g"

text \<open>\<^verbatim>\<open>Car.__init__\<close>.\<close>

definition Car_init :: "real \<Rightarrow> real \<Rightarrow> Lane \<Rightarrow> real \<Rightarrow> bool \<Rightarrow> Car" where
  "Car_init p v l m b =
     \<lparr>position = p, speed = v, lane = l, max_speed = m, follows_bad_practice = b\<rparr>"

section \<open>Notions of the specification\<close>

text \<open>
  The lane policy in the words of the specification (section 4.1): the lane one step to
  the right and to the left; the safety of a target lane for a car (every car of that
  lane strictly ahead is at least 50 m ahead, every car of that lane behind is at least
  50 m behind; a car at the same position is neither); the nearest car ahead in the same
  lane (the first in collection order among equally near ones); and the four rules in
  priority order, \<open>lane_rules\<close>, over a safety judgement of the two target lanes.
  \<open>lane_policy\<close> is the four rules with the safety of the specification.
\<close>

fun lane_right :: "Lane \<Rightarrow> Lane" where
  "lane_right LEFT = MIDDLE"
| "lane_right MIDDLE = RIGHT"
| "lane_right RIGHT = RIGHT"

fun lane_left :: "Lane \<Rightarrow> Lane" where
  "lane_left RIGHT = MIDDLE"
| "lane_left MIDDLE = LEFT"
| "lane_left LEFT = LEFT"

definition lane_safe :: "HighwaySimulation \<Rightarrow> Car \<Rightarrow> Lane \<Rightarrow> bool" where
  "lane_safe s car t \<longleftrightarrow>
     (\<forall>other \<in> set (cars s). lane other = t \<longrightarrow>
        (position car < position other \<longrightarrow> 50 \<le> position other - position car)
        \<and> (position other < position car \<longrightarrow> 50 \<le> position car - position other))"

definition nearest_car_ahead :: "HighwaySimulation \<Rightarrow> Car \<Rightarrow> Car option" where
  "nearest_car_ahead s car =
     (let ahead = filter (\<lambda>other. lane other = lane car \<and> position car < position other) (cars s)
      in case filter (\<lambda>a. \<forall>other \<in> set ahead. position a \<le> position other) ahead of
           [] \<Rightarrow> None
         | a # _ \<Rightarrow> Some a)"

definition lane_rules :: "(Lane \<Rightarrow> bool) \<Rightarrow> HighwaySimulation \<Rightarrow> rng \<Rightarrow> Car \<Rightarrow> Car \<times> rng" where
  "lane_rules safe s g car =
     (if \<not> follows_bad_practice car \<and> lane car \<noteq> RIGHT \<and> safe (lane_right (lane car))
      then (car\<lparr>lane := lane_right (lane car)\<rparr>, g)
      else if follows_bad_practice car \<and> lane car = MIDDLE \<and> fst (random_random g) < 7/10
      then (car, snd (random_random g))
      else
        let g1 = (if follows_bad_practice car \<and> lane car = MIDDLE
                  then snd (random_random g) else g)
        in if (case nearest_car_ahead s car of None \<Rightarrow> False | Some a \<Rightarrow> speed a < speed car)
              \<and> lane car \<noteq> LEFT \<and> safe (lane_left (lane car))
           then (car\<lparr>lane := lane_left (lane car)\<rparr>, g1)
           else if \<not> follows_bad_practice car \<and> lane car \<noteq> RIGHT
                   \<and> safe (lane_right (lane car))
           then (car\<lparr>lane := lane_right (lane car)\<rparr>, g1)
           else (car, g1))"

definition lane_policy :: "HighwaySimulation \<Rightarrow> rng \<Rightarrow> Car \<Rightarrow> Car \<times> rng" where
  "lane_policy s g car = lane_rules (lane_safe s car) s g car"

text \<open>
  What one tick does to a car \<open>c\<close> of the collection, \<open>c'\<close> being the car afterwards: some
  lane, some non-negative speed, and the position advanced by
  \<open>speed \<times> time_step \<times> (1000/3600)\<close> for the new speed; nothing else changes.
\<close>

definition tick_update :: "HighwaySimulation \<Rightarrow> Car \<Rightarrow> Car \<Rightarrow> bool" where
  "tick_update s c c' \<longleftrightarrow>
     0 \<le> speed c'
     \<and> c' = c\<lparr>lane := lane c', speed := speed c',
              position := position c + speed c' * time_step s * (1000 / 3600)\<rparr>"

text \<open>The despawn filter of \<^verbatim>\<open>step\<close>.\<close>

definition survivors :: "HighwaySimulation \<Rightarrow> Car list \<Rightarrow> Car list" where
  "survivors s cs = filter (\<lambda>c. position c \<le> highway_length s) cs"

text \<open>
  The state after \<open>n\<close> ticks, and the jam flag after \<open>k\<close> ticks of a run (which starts
  with the flag cleared).
\<close>

fun steps :: "nat \<Rightarrow> HighwaySimulation \<Rightarrow> rng \<Rightarrow> py_error + HighwaySimulation \<times> rng" where
  "steps 0 s g = Inr (s, g)"
| "steps (Suc n) s g =
     (case step s g of Inl e \<Rightarrow> Inl e | Inr (s', g') \<Rightarrow> steps n s' g')"

definition jam_after :: "HighwaySimulation \<Rightarrow> rng \<Rightarrow> nat \<Rightarrow> bool" where
  "jam_after s g k =
     (case steps k (s\<lparr>traffic_jam_detected := False\<rparr>) g of
        Inl e \<Rightarrow> False
      | Inr (s', g') \<Rightarrow> traffic_jam_detected s')"

section \<open>Concrete generator states and engine states\<close>

text \<open>
  A generator whose next float draws are \<open>fs\<close> and whose next lane draws are \<open>ls\<close>
  (followed by 1/2 and Right forever), and an engine state as the constructor leaves it
  (\<open>time_step = 0.1\<close>).
\<close>

definition draws :: "real list \<Rightarrow> Lane list \<Rightarrow> rng" where
  "draws fs ls = \<lparr>floats = fs @- sconst (1/2), lanes = ls @- sconst RIGHT\<rparr>"

definition engine :: "int \<Rightarrow> real \<Rightarrow> real \<Rightarrow> real \<Rightarrow> Car list \<Rightarrow> bool \<Rightarrow> HighwaySimulation" where
  "engine n len ratio sp cs jam =
     \<lparr>num_cars = n, highway_length = len, bad_practice_ratio = ratio,
      spawn_probability = sp, cars = cs, time_step = 1/10, traffic_jam_detected = jam\<rparr>"

section \<open>Auxiliary facts\<close>

lemmas rng_defs = draws_def random_random_def next_float_def random_lane_def random_uniform_def
  random_triangular_def

lemmas init_defs = HighwaySimulation_init_def initialize_cars_def create_car_def

lemmas query_defs = get_cars_in_lane_def is_car_ahead_def get_distance_def can_pass_on_left_def
  should_move_to_right_def find_car_ahead_def is_blocked_def

lemmas step_defs = update_car_lane_def update_car_speed_def update_car_position_def
  has_space_for_spawn_def spawn_new_cars_if_needed_def update_passes_def
  check_traffic_jam_def step_def move_lane_def Lane_of_def

subsection \<open>The loops of construction and spawning only append cars\<close>

lemma spawn_loop_cars:
  "\<exists>sp. fst (spawn_loop n s g) = s\<lparr>cars := cars s @ sp\<rparr> \<and> length sp \<le> n"
proof (induction n arbitrary: s g)
  case 0
  show ?case by (rule exI [of _ "[]"]) simp
next
  case (Suc n)
  obtain u g1 where r: "random_random g = (u, g1)" by (cases "random_random g")
  obtain l g2 where l: "random_lane g1 = (l, g2)" by (cases "random_lane g1")
  obtain p g3 where p: "random_uniform 0 20 g2 = (p, g3)" by (cases "random_uniform 0 20 g2")
  obtain c g4 where c: "create_car s (Some p) (Some l) g3 = (c, g4)"
    by (cases "create_car s (Some p) (Some l) g3")
  show ?case
  proof (cases "u < spawn_probability s \<and> has_space_for_spawn s p l")
    case True
    from Suc.IH [of "s\<lparr>cars := cars s @ [c]\<rparr>" g4]
    obtain sp where sp: "fst (spawn_loop n (s\<lparr>cars := cars s @ [c]\<rparr>) g4)
        = s\<lparr>cars := cars s @ [c]\<rparr>\<lparr>cars := cars (s\<lparr>cars := cars s @ [c]\<rparr>) @ sp\<rparr>"
      and len: "length sp \<le> n" by blast
    show ?thesis
      by (rule exI [of _ "c # sp"]) (use True r l p c sp len in simp)
  next
    case False
    show ?thesis
    proof (cases "u < spawn_probability s")
      case True
      with False have ns: "\<not> has_space_for_spawn s p l" by simp
      from Suc.IH [of s g3] obtain sp where
        "fst (spawn_loop n s g3) = s\<lparr>cars := cars s @ sp\<rparr>" "length sp \<le> n" by blast
      then show ?thesis using True ns r l p by (intro exI [of _ sp]) simp
    next
      case nu: False
      from Suc.IH [of s g1] obtain sp where
        "fst (spawn_loop n s g1) = s\<lparr>cars := cars s @ sp\<rparr>" "length sp \<le> n" by blast
      then show ?thesis using nu r by (intro exI [of _ sp]) simp
    qed
  qed
qed

lemma initialize_loop_cars:
  "\<exists>cs. fst (initialize_loop n s g) = s\<lparr>cars := cars s @ cs\<rparr> \<and> length cs = n"
proof (induction n arbitrary: s g)
  case 0
  show ?case by (rule exI [of _ "[]"]) simp
next
  case (Suc n)
  obtain c g1 where c: "create_car s None None g = (c, g1)"
    by (cases "create_car s None None g")
  from Suc.IH [of "s\<lparr>cars := cars s @ [c]\<rparr>" g1]
  obtain cs where "fst (initialize_loop n (s\<lparr>cars := cars s @ [c]\<rparr>) g1)
        = s\<lparr>cars := cars s @ [c]\<rparr>\<lparr>cars := cars (s\<lparr>cars := cars s @ [c]\<rparr>) @ cs\<rparr>"
      and "length cs = n" by blast
  then show ?case using c by (intro exI [of _ "c # cs"]) simp
qed

lemma should_move_to_right_lane: "should_move_to_right s car \<Longrightarrow> lane car \<noteq> RIGHT"
  by (auto simp: should_move_to_right_def)

lemma can_pass_on_left_lane: "can_pass_on_left s car \<Longrightarrow> lane car \<noteq> LEFT"
  by (auto simp: can_pass_on_left_def)

subsection \<open>The search loop finds the nearest car ahead\<close>

lemma ahead_loop_filter:
  "ahead_loop car xs ca md = ahead_loop car (filter (is_car_ahead car) xs) ca md"
  by (induction xs arbitrary: ca md) (simp_all add: Let_def)

lemma ahead_loop_settled:
  "\<forall>other \<in> set xs. position a \<le> position other \<Longrightarrow>
   ahead_loop car xs (Some a) (Fin (position a - position car))
     = (Some a, Fin (position a - position car))"
  by (induction xs) (simp_all add: Let_def get_distance_def)

lemma ahead_loop_sorted:
  assumes "sorted (map position xs)" and "\<forall>other \<in> set xs. is_car_ahead car other"
  shows "fst (ahead_loop car xs None PInf) = (case xs of [] \<Rightarrow> None | x # _ \<Rightarrow> Some x)"
proof (cases xs)
  case Nil
  then show ?thesis by simp
next
  case (Cons x rest)
  from assms Cons have ah: "is_car_ahead car x" and le: "\<forall>other \<in> set rest. position x \<le> position other"
    by auto
  from ah have pos: "position car < position x"
    by (simp add: is_car_ahead_def split: if_splits)
  have d: "get_distance car x = Fin (position x - position car)"
    using pos by (simp add: get_distance_def)
  show ?thesis
    using Cons ah d ahead_loop_settled [OF le, of car] by (simp add: Let_def)
qed

lemma hd_sort_key_stable:
  assumes "xs \<noteq> []"
  shows "\<exists>b rest. sort_key f xs = b # rest \<and> (\<forall>x \<in> set xs. f b \<le> f x)
           \<and> filter (\<lambda>y. f y = f b) xs = b # filter (\<lambda>y. f y = f b) rest"
proof -
  from assms have "sort_key f xs \<noteq> []"
    by (metis length_0_conv length_sort)
  then obtain b rest where br: "sort_key f xs = b # rest" by (cases "sort_key f xs") auto
  have "sorted (map f (sort_key f xs))" by (rule sorted_sort_key)
  with br have "\<forall>x \<in> set rest. f b \<le> f x" by simp
  moreover have "set xs = set (b # rest)" using br by (metis set_sort)
  ultimately have min: "\<forall>x \<in> set xs. f b \<le> f x" by auto
  have "filter (\<lambda>y. f y = f b) xs = filter (\<lambda>y. f y = f b) (sort_key f xs)"
    by (rule sort_key_stable [symmetric])
  with br have "filter (\<lambda>y. f y = f b) xs = b # filter (\<lambda>y. f y = f b) rest" by simp
  with br min show ?thesis by blast
qed

lemma find_car_ahead_nearest: "find_car_ahead s car = nearest_car_ahead s car"
proof -
  define A where "A = filter (\<lambda>other. lane other = lane car \<and> position car < position other) (cars s)"
  have ahead: "\<forall>other \<in> set A. is_car_ahead car other"
    by (auto simp: A_def is_car_ahead_def)
  have "filter (is_car_ahead car) (get_cars_in_lane s (lane car)) = sort_key position A"
    unfolding get_cars_in_lane_def A_def filter_sort
    by (rule arg_cong [where f = "sort_key position"])
       (auto simp: is_car_ahead_def intro: filter_cong)
  then have loop: "find_car_ahead s car = fst (ahead_loop car (sort_key position A) None PInf)"
    unfolding find_car_ahead_def by (subst ahead_loop_filter) simp
  have sorted: "sorted (map position (sort_key position A))" by (rule sorted_sort_key)
  have ahead': "\<forall>other \<in> set (sort_key position A). is_car_ahead car other"
    using ahead by simp
  note first = ahead_loop_sorted [OF sorted ahead']
  show ?thesis
  proof (cases "A = []")
    case True
    then show ?thesis using loop by (simp add: nearest_car_ahead_def A_def [symmetric])
  next
    case False
    from hd_sort_key_stable [OF False, of position] obtain b rest where
      br: "sort_key position A = b # rest" and
      min: "\<forall>x \<in> set A. position b \<le> position x" and
      flt: "filter (\<lambda>y. position y = position b) A = b # filter (\<lambda>y. position y = position b) rest"
      by blast
    have "b \<in> set A" using br by (metis list.set_intros(1) set_sort)
    then have "filter (\<lambda>a. \<forall>other \<in> set A. position a \<le> position other) A
         = filter (\<lambda>y. position y = position b) A"
      using min by (intro filter_cong) (auto intro: antisym)
    with flt have "nearest_car_ahead s car = Some b"
      by (simp add: nearest_car_ahead_def A_def [symmetric])
    moreover have "find_car_ahead s car = Some b" using loop first br by simp
    ultimately show ?thesis by simp
  qed
qed

subsection \<open>The passes of a tick, car by car\<close>

lemma move_lane_right:
  "lane car \<noteq> RIGHT \<Longrightarrow> move_lane car (- 1) g = Inr (car\<lparr>lane := lane_right (lane car)\<rparr>, g)"
  by (cases "lane car") (simp_all add: move_lane_def Lane_of_def)

lemma move_lane_left:
  "lane car \<noteq> LEFT \<Longrightarrow> move_lane car 1 g = Inr (car\<lparr>lane := lane_left (lane car)\<rparr>, g)"
  by (cases "lane car") (simp_all add: move_lane_def Lane_of_def)

lemma update_car_lane_total: "\<exists>l g'. update_car_lane s g car = Inr (car\<lparr>lane := l\<rparr>, g')"
proof -
  have keep: "\<exists>l. car = car\<lparr>lane := l\<rparr>"
    by (rule exI [of _ "lane car"]) simp
  have right: "\<exists>l g'. move_lane car (- 1) h = Inr (car\<lparr>lane := l\<rparr>, g')"
    if "should_move_to_right s car" for h
    using move_lane_right [OF should_move_to_right_lane [OF that]] by blast
  have left: "\<exists>l g'. move_lane car 1 h = Inr (car\<lparr>lane := l\<rparr>, g')"
    if "can_pass_on_left s car" for h
    using move_lane_left [OF can_pass_on_left_lane [OF that]] by blast
  show ?thesis
    unfolding update_car_lane_def Let_def split_beta
    by (simp add: keep right left)
qed

lemma lane_pass_loop_rel:
  "\<exists>rest' g'. lane_pass_loop s upd rest g = Inr (upd @ rest', g')
      \<and> list_all2 (\<lambda>c c'. \<exists>l. c' = c\<lparr>lane := l\<rparr>) rest rest'"
proof (induction rest arbitrary: upd g)
  case Nil
  show ?case by simp
next
  case (Cons car rest)
  let ?live = "s\<lparr>cars := upd @ car # rest\<rparr>"
  from update_car_lane_total [of ?live g car] obtain l g1 where
    upd: "update_car_lane ?live g car = Inr (car\<lparr>lane := l\<rparr>, g1)" by blast
  let ?car' = "car\<lparr>lane := l\<rparr>"
  from Cons.IH [of "upd @ [?car']" g1] obtain rest' g' where
    loop: "lane_pass_loop s (upd @ [?car']) rest g1 = Inr ((upd @ [?car']) @ rest', g')" and
    rel: "list_all2 (\<lambda>c c'. \<exists>l. c' = c\<lparr>lane := l\<rparr>) rest rest'" by blast
  have "lane_pass_loop s upd (car # rest) g = Inr (upd @ ?car' # rest', g')"
    using loop upd by simp
  moreover have "list_all2 (\<lambda>c c'. \<exists>l. c' = c\<lparr>lane := l\<rparr>) (car # rest) (?car' # rest')"
    using rel by blast
  ultimately show ?case by blast
qed

lemma update_car_speed_car: "\<exists>v. 0 \<le> v \<and> update_car_speed s car = car\<lparr>speed := v\<rparr>"
  unfolding update_car_speed_def Let_def by (intro exI conjI) (rule max.cobounded1, rule refl)

lemma speed_pass_loop_rel:
  "\<exists>rest'. speed_pass_loop s upd rest = upd @ rest'
      \<and> list_all2 (\<lambda>c c'. \<exists>v. 0 \<le> v \<and> c' = c\<lparr>speed := v\<rparr>) rest rest'"
proof (induction rest arbitrary: upd)
  case Nil
  show ?case by simp
next
  case (Cons car rest)
  let ?car' = "update_car_speed (s\<lparr>cars := upd @ car # rest\<rparr>) car"
  from update_car_speed_car obtain v where v: "0 \<le> v" and eq: "?car' = car\<lparr>speed := v\<rparr>" by blast
  from Cons.IH [of "upd @ [?car']"] obtain rest' where
    loop: "speed_pass_loop s (upd @ [?car']) rest = (upd @ [?car']) @ rest'" and
    rel: "list_all2 (\<lambda>c c'. \<exists>v. 0 \<le> v \<and> c' = c\<lparr>speed := v\<rparr>) rest rest'" by blast
  have "speed_pass_loop s upd (car # rest) = upd @ ?car' # rest'"
    using loop by simp
  moreover have "list_all2 (\<lambda>c c'. \<exists>v. 0 \<le> v \<and> c' = c\<lparr>speed := v\<rparr>) (car # rest) (?car' # rest')"
    using rel v eq by blast
  ultimately show ?case by blast
qed

lemma update_passes_rel:
  "\<exists>cs3 g1. update_passes s g = Inr (cs3, g1) \<and> list_all2 (tick_update s) (cars s) cs3"
proof -
  from lane_pass_loop_rel [of s "[]" "cars s" g] obtain cs1 g1 where
    l: "lane_pass_loop s [] (cars s) g = Inr (cs1, g1)" and
    r1: "list_all2 (\<lambda>c c'. \<exists>l. c' = c\<lparr>lane := l\<rparr>) (cars s) cs1" by auto
  from speed_pass_loop_rel [of s "[]" cs1] obtain cs2 where
    sp: "speed_pass_loop s [] cs1 = cs2" and
    r2: "list_all2 (\<lambda>c c'. \<exists>v. 0 \<le> v \<and> c' = c\<lparr>speed := v\<rparr>) cs1 cs2" by auto
  have len: "length (cars s) = length cs1" "length cs1 = length cs2"
    using r1 r2 by (simp_all add: list_all2_lengthD)
  have "tick_update s (cars s ! i) (update_car_position s (cs2 ! i))" if "i < length cs2" for i
  proof -
    from that len r1 obtain l where a: "cs1 ! i = (cars s ! i)\<lparr>lane := l\<rparr>"
      by (auto simp: list_all2_conv_all_nth)
    from that len r2 obtain v where v: "0 \<le> v" and b: "cs2 ! i = (cs1 ! i)\<lparr>speed := v\<rparr>"
      by (auto simp: list_all2_conv_all_nth)
    show ?thesis
      unfolding tick_update_def update_car_position_def a b
      by (simp add: v)
  qed
  then have "list_all2 (tick_update s) (cars s) (map (update_car_position s) cs2)"
    using len by (simp add: list_all2_conv_all_nth)
  then show ?thesis using l sp by (simp add: update_passes_def)
qed

lemma step_structure:
  "\<exists>cs3 g1 sp g2.
     update_passes s g = Inr (cs3, g1)
     \<and> int (length sp) \<le> max 0 (num_cars s - int (length (survivors s cs3)))
     \<and> step s g = Inr (check_traffic_jam
           (s\<lparr>cars := sort_key position (survivors s cs3 @ sp)\<rparr>), g2)"
proof -
  from update_passes_rel obtain cs3 g1 where up: "update_passes s g = Inr (cs3, g1)" by blast
  let ?s4 = "s\<lparr>cars := survivors s cs3\<rparr>"
  let ?n = "nat (num_cars s - int (length (survivors s cs3)))"
  obtain s5 g2 where sl: "spawn_loop ?n ?s4 g1 = (s5, g2)" by (cases "spawn_loop ?n ?s4 g1")
  from spawn_loop_cars [of ?n ?s4 g1] sl obtain sp where
    s5: "s5 = ?s4\<lparr>cars := cars ?s4 @ sp\<rparr>" and len: "length sp \<le> ?n" by auto
  have "step s g = Inr (check_traffic_jam (s\<lparr>cars := sort_key position (survivors s cs3 @ sp)\<rparr>), g2)"
    using up sl s5 by (simp add: step_def spawn_new_cars_if_needed_def survivors_def)
  moreover have "int (length sp) \<le> max 0 (num_cars s - int (length (survivors s cs3)))"
    using len by linarith
  ultimately show ?thesis using up by blast
qed

lemma check_traffic_jam_cases:
  "check_traffic_jam s = s \<or> check_traffic_jam s = s\<lparr>traffic_jam_detected := True\<rparr>"
  by (simp add: check_traffic_jam_def Let_def)

lemma step_total: "\<exists>s' g'. step s g = Inr (s', g')"
  using step_structure [of s g] by blast

lemma step_sticky:
  assumes "step s g = Inr (s', g')" and "traffic_jam_detected s"
  shows "traffic_jam_detected s'"
proof -
  from step_structure [of s g] assms(1) obtain cs where
    "s' = check_traffic_jam (s\<lparr>cars := cs\<rparr>)" by auto
  with check_traffic_jam_cases [of "s\<lparr>cars := cs\<rparr>"] assms(2) show ?thesis by auto
qed

lemma step_fields:
  assumes "step s g = Inr (s', g')"
  shows "num_cars s' = num_cars s \<and> highway_length s' = highway_length s
     \<and> time_step s' = time_step s \<and> bad_practice_ratio s' = bad_practice_ratio s
     \<and> spawn_probability s' = spawn_probability s"
proof -
  from step_structure [of s g] assms(1) obtain cs where
    "s' = check_traffic_jam (s\<lparr>cars := cs\<rparr>)" by auto
  with check_traffic_jam_cases [of "s\<lparr>cars := cs\<rparr>"] show ?thesis by auto
qed

section \<open>The safety judgement of a target lane\<close>

text \<open>
  What the scan computes on the cars of another lane: the lane is judged safe exactly
  when none of them is strictly behind the evaluated car by less than 50 m. Cars ahead
  and cars at the same position never count.
\<close>

lemma target_scan_other_lane:
  assumes "\<forall>other \<in> set xs. lane other \<noteq> lane car"
  shows "target_scan car xs \<longleftrightarrow>
           (\<forall>other \<in> set xs. \<not> (position other < position car
                                  \<and> position car - position other < 50))"
  using assms by (induction xs) (auto simp: is_car_ahead_def get_distance_def)

lemma can_pass_on_left_iff:
  "can_pass_on_left s car \<longleftrightarrow>
     lane car \<noteq> LEFT
     \<and> (\<forall>other \<in> set (cars s). lane other = lane_left (lane car) \<longrightarrow>
            \<not> (position other < position car \<and> position car - position other < 50))"
proof (cases "lane car")
  case RIGHT
  have "\<forall>other \<in> set (get_cars_in_lane s MIDDLE). lane other \<noteq> lane car"
    using RIGHT by (simp add: get_cars_in_lane_def)
  from target_scan_other_lane [OF this] RIGHT show ?thesis
    by (auto simp: can_pass_on_left_def get_cars_in_lane_def)
next
  case MIDDLE
  have "\<forall>other \<in> set (get_cars_in_lane s LEFT). lane other \<noteq> lane car"
    using MIDDLE by (simp add: get_cars_in_lane_def)
  from target_scan_other_lane [OF this] MIDDLE show ?thesis
    by (auto simp: can_pass_on_left_def get_cars_in_lane_def)
next
  case LEFT
  then show ?thesis by (simp add: can_pass_on_left_def)
qed

lemma should_move_to_right_iff:
  "should_move_to_right s car \<longleftrightarrow>
     lane car \<noteq> RIGHT
     \<and> (\<forall>other \<in> set (cars s). lane other = lane_right (lane car) \<longrightarrow>
            \<not> (position other < position car \<and> position car - position other < 50))"
proof (cases "lane car")
  case LEFT
  have "\<forall>other \<in> set (get_cars_in_lane s MIDDLE). lane other \<noteq> lane car"
    using LEFT by (simp add: get_cars_in_lane_def)
  from target_scan_other_lane [OF this] LEFT show ?thesis
    by (auto simp: should_move_to_right_def get_cars_in_lane_def)
next
  case MIDDLE
  have "\<forall>other \<in> set (get_cars_in_lane s RIGHT). lane other \<noteq> lane car"
    using MIDDLE by (simp add: get_cars_in_lane_def)
  from target_scan_other_lane [OF this] MIDDLE show ?thesis
    by (auto simp: should_move_to_right_def get_cars_in_lane_def)
next
  case RIGHT
  then show ?thesis by (simp add: should_move_to_right_def)
qed

text \<open>
  C1 (the code departs from the specification). The specification: a target lane is judged safe if and
  only if every car in it that is strictly ahead of the evaluated car is at least 50 m
  ahead and every other car in it is at least 50 m behind; in particular a car strictly
  ahead within 50 m makes the lane unsafe. In the source the branch for a car ahead
  is guarded by \<^verbatim>\<open>_is_car_ahead\<close>, which is false for a car of another lane, and every
  car of the target lane is in another lane: the engine below is what the constructor
  returns for the given draws, its Middle car has a Left car 20 m ahead, and
  \<^verbatim>\<open>_can_pass_on_left\<close> answers True; likewise \<^verbatim>\<open>_should_move_to_right\<close> for the Left
  car of the second engine, with a Middle car 20 m ahead.
\<close>

theorem lane_change_ignores_car_ahead:
  "HighwaySimulation_init 2 2000 0 (3/10)
      (draws [100, 110, 95/100, 1/2, 120, 110, 95/100, 1/2] [MIDDLE, LEFT])
    = Inr (engine 2 2000 0 (3/10)
             [Car_init 100 (209/2) MIDDLE 110 False, Car_init 120 (209/2) LEFT 110 False]
             False, draws [] [])
   \<and> can_pass_on_left
        (engine 2 2000 0 (3/10)
           [Car_init 100 (209/2) MIDDLE 110 False, Car_init 120 (209/2) LEFT 110 False] False)
        (Car_init 100 (209/2) MIDDLE 110 False) = True
   \<and> should_move_to_right
        (engine 2 2000 0 (3/10)
           [Car_init 100 (209/2) LEFT 110 False, Car_init 120 (209/2) MIDDLE 110 False] False)
        (Car_init 100 (209/2) LEFT 110 False) = True"
  by (simp add: init_defs rng_defs query_defs engine_def Car_init_def numeral_2_eq_2)

section \<open>The speed bound\<close>

text \<open>
  C2 (the code departs from the specification). The specification: after every completed \<^verbatim>\<open>step()\<close>
  every car has \<open>0 \<le> speed \<le> max_speed\<close>, also on the branches of the speed update that
  take the new speed from the leading car. The accelerating branches cap the speed at
  \<^verbatim>\<open>car.max_speed\<close>; the two following branches do not. The engine below is what the
  constructor returns for the given draws: a car of maximum speed 100 at speed 95, and
  80 m ahead of it in the same lane a car at speed 121.6. After one step the follower
  drives at 121.6.
\<close>

theorem step_exceeds_max_speed:
  "HighwaySimulation_init 2 2000 0 (3/10)
      (draws [100, 100, 95/100, 1/2, 180, 128, 95/100, 1/2] [RIGHT, RIGHT])
    = Inr (engine 2 2000 0 (3/10)
             [Car_init 100 95 RIGHT 100 False, Car_init 180 (608/5) RIGHT 128 False] False,
           draws [] [])
   \<and> step (engine 2 2000 0 (3/10)
             [Car_init 100 95 RIGHT 100 False, Car_init 180 (608/5) RIGHT 128 False] False)
          (draws [] [])
    = Inr (engine 2 2000 0 (3/10)
             [Car_init (4652/45) (608/5) RIGHT 100 False,
              Car_init (11003/60) (609/5) RIGHT 128 False] False,
           draws [] [])"
  by (simp add: init_defs rng_defs query_defs step_defs engine_def Car_init_def
      numeral_2_eq_2 Let_def)

section \<open>The warm-up of a run\<close>

lemma steps_total: "\<exists>s' g'. steps n s g = Inr (s', g')"
proof (induction n arbitrary: s g)
  case 0
  show ?case by simp
next
  case (Suc n)
  from step_total obtain s1 g1 where "step s g = Inr (s1, g1)" by blast
  with Suc.IH [of s1 g1] show ?case by simp
qed

lemma steps_Suc_right:
  "steps (Suc n) s g = (case steps n s g of Inl e \<Rightarrow> Inl e | Inr (s', g') \<Rightarrow> step s' g')"
proof (induction n arbitrary: s g)
  case 0
  show ?case by (simp split: sum.splits)
next
  case (Suc n)
  from step_total obtain s1 g1 where s1: "step s g = Inr (s1, g1)" by blast
  have "steps (Suc (Suc n)) s g = steps (Suc n) s1 g1" using s1 by simp
  also have "\<dots> = (case steps n s1 g1 of Inl e \<Rightarrow> Inl e | Inr (s', g') \<Rightarrow> step s' g')"
    by (rule Suc.IH)
  also have "steps n s1 g1 = steps (Suc n) s g" using s1 by simp
  finally show ?case .
qed

lemma steps_sticky:
  assumes "steps a s g = Inr (sa, ga)" and "traffic_jam_detected sa"
    and "steps (a + d) s g = Inr (sb, gb)"
  shows "traffic_jam_detected sb"
  using assms(3)
proof (induction d arbitrary: sb gb)
  case 0
  with assms(1,2) show ?case by simp
next
  case (Suc d)
  from steps_total obtain sm gm where m: "steps (a + d) s g = Inr (sm, gm)" by blast
  from Suc.prems m have "step sm gm = Inr (sb, gb)"
    by (simp add: steps_Suc_right del: steps.simps)
  with Suc.IH [OF m] show ?case by (rule step_sticky [rotated])
qed

lemma run_loop_steps:
  "\<exists>r s' g'. run_loop n k s g = Inr (r, s', g')
     \<and> (if r then \<exists>j < n. 100 < k + j \<and> steps (Suc j) s g = Inr (s', g')
                   \<and> traffic_jam_detected s'
         else steps n s g = Inr (s', g')
              \<and> (\<forall>j < n. \<forall>sj gj. 100 < k + j \<longrightarrow> steps (Suc j) s g = Inr (sj, gj)
                     \<longrightarrow> \<not> traffic_jam_detected sj))"
    (is "\<exists>r s' g'. run_loop n k s g = Inr (r, s', g') \<and> ?R n k s g r s' g'")
proof (induction n arbitrary: k s g)
  case 0
  have "run_loop 0 k s g = Inr (False, s, g)" by simp
  moreover have "?R 0 k s g False s g" by simp
  ultimately show ?case by blast
next
  case (Suc n)
  from step_total obtain s1 g1 where s1: "step s g = Inr (s1, g1)" by blast
  have st: "steps (Suc j) s g = steps j s1 g1" for j using s1 by simp
  show ?case
  proof (cases "100 < k \<and> traffic_jam_detected s1")
    case True
    have "run_loop (Suc n) k s g = Inr (True, s1, g1)" using s1 True by simp
    moreover have "\<exists>j < Suc n. 100 < k + j \<and> steps (Suc j) s g = Inr (s1, g1)
                   \<and> traffic_jam_detected s1"
      using s1 True by (intro exI [of _ 0]) simp
    then have "?R (Suc n) k s g True s1 g1" by (simp only: if_True)
    ultimately show ?thesis by blast
  next
    case nojam: False
    have eq: "run_loop (Suc n) k s g = run_loop n (Suc k) s1 g1" using s1 nojam by auto
    from Suc.IH [of "Suc k" s1 g1] obtain r s' g' where
      rl: "run_loop n (Suc k) s1 g1 = Inr (r, s', g')" and
      char: "?R n (Suc k) s1 g1 r s' g'" by blast
    have "?R (Suc n) k s g r s' g'"
    proof (cases r)
      case True
      with char obtain j where j: "j < n" "100 < Suc k + j" "steps (Suc j) s1 g1 = Inr (s', g')"
        "traffic_jam_detected s'" by auto
      have "\<exists>j < Suc n. 100 < k + j \<and> steps (Suc j) s g = Inr (s', g') \<and> traffic_jam_detected s'"
        using j by (intro exI [of _ "Suc j"]) (simp add: st del: steps.simps)
      with True show ?thesis by (simp only: if_True)
    next
      case False
      with char have fin: "steps n s1 g1 = Inr (s', g')" and
        no: "\<And>j sj gj. j < n \<Longrightarrow> 100 < Suc k + j \<Longrightarrow> steps (Suc j) s1 g1 = Inr (sj, gj)
                     \<Longrightarrow> \<not> traffic_jam_detected sj" by auto
      have neg: "\<not> traffic_jam_detected sj"
        if "j < Suc n" "100 < k + j" "steps (Suc j) s g = Inr (sj, gj)" for j sj gj
      proof (cases j)
        case 0
        with that s1 have "sj = s1" by simp
        with nojam that 0 show ?thesis by simp
      next
        case (Suc i)
        with that have "i < n" "100 < Suc k + i" "steps (Suc i) s1 g1 = Inr (sj, gj)"
          by (simp_all add: st del: steps.simps)
        then show ?thesis by (rule no)
      qed
      have "steps (Suc n) s g = Inr (s', g')" using fin by (simp only: st)
      with neg False show ?thesis by (simp only: if_False) blast
    qed
    with eq rl show ?thesis by (simp only:) blast
  qed
qed

lemma run_loop_fixpoint:
  assumes "step s g = Inr (s, g)"
  shows "run_loop n k s g = Inr (traffic_jam_detected s \<and> 0 < n \<and> 101 < k + n, s, g)"
proof (induction n arbitrary: k)
  case 0
  show ?case by simp
next
  case (Suc n)
  show ?case
  proof (cases "100 < k \<and> traffic_jam_detected s")
    case True
    then show ?thesis using assms by simp
  next
    case False
    then have "run_loop (Suc n) k s g = run_loop n (Suc k) s g" using assms by auto
    also have "\<dots> = Inr (traffic_jam_detected s \<and> 0 < n \<and> 101 < Suc k + n, s, g)"
      by (rule Suc.IH)
    also have "(traffic_jam_detected s \<and> 0 < n \<and> 101 < Suc k + n)
        = (traffic_jam_detected s \<and> 0 < Suc n \<and> 101 < k + Suc n)"
      using False by auto
    finally show ?thesis .
  qed
qed

lemma run_loop_flag:
  "\<exists>r s' g'. run_loop n 0 s g = Inr (r, s', g')
     \<and> (r \<longleftrightarrow> 102 \<le> n \<and> (\<exists>k \<le> n. \<exists>sk gk. steps k s g = Inr (sk, gk) \<and> traffic_jam_detected sk))
     \<and> (if r then \<exists>j. 102 \<le> j \<and> j \<le> n \<and> steps j s g = Inr (s', g')
         else steps n s g = Inr (s', g'))"
proof -
  from run_loop_steps [of n 0 s g] obtain r s' g' where
    rl: "run_loop n 0 s g = Inr (r, s', g')" and
    char: "if r then \<exists>j < n. 100 < 0 + j \<and> steps (Suc j) s g = Inr (s', g')
                   \<and> traffic_jam_detected s'
         else steps n s g = Inr (s', g')
              \<and> (\<forall>j < n. \<forall>sj gj. 100 < 0 + j \<longrightarrow> steps (Suc j) s g = Inr (sj, gj)
                     \<longrightarrow> \<not> traffic_jam_detected sj)" by blast
  show ?thesis
  proof (cases r)
    case True
    with char obtain j where j1: "j < n" and j2: "100 < j" and
      j3: "steps (Suc j) s g = Inr (s', g')" and j4: "traffic_jam_detected s'"
      by (auto simp only: if_True add_0)
    from j1 have le: "Suc j \<le> n" by simp
    from j2 have big: "102 \<le> Suc j" by simp
    from le big have n: "102 \<le> n" by simp
    have a: "102 \<le> n \<and> (\<exists>k \<le> n. \<exists>sk gk. steps k s g = Inr (sk, gk) \<and> traffic_jam_detected sk)"
      using n le j3 j4 by blast
    have b: "\<exists>j. 102 \<le> j \<and> j \<le> n \<and> steps j s g = Inr (s', g')"
      using le big j3 by blast
    have "run_loop n 0 s g = Inr (True, s', g')" using rl True by simp
    moreover have "True \<longleftrightarrow> 102 \<le> n \<and> (\<exists>k \<le> n. \<exists>sk gk. steps k s g = Inr (sk, gk) \<and> traffic_jam_detected sk)"
      using a by simp
    moreover have "if True then \<exists>j. 102 \<le> j \<and> j \<le> n \<and> steps j s g = Inr (s', g')
         else steps n s g = Inr (s', g')" using b by (simp only: if_True)
    ultimately show ?thesis by blast
  next
    case False
    with char have fin: "steps n s g = Inr (s', g')" and
      no: "\<And>j sj gj. j < n \<Longrightarrow> 100 < j \<Longrightarrow> steps (Suc j) s g = Inr (sj, gj)
                     \<Longrightarrow> \<not> traffic_jam_detected sj"
      by (auto simp only: if_False add_0)
    have neg: "\<not> (102 \<le> n \<and> (\<exists>k \<le> n. \<exists>sk gk. steps k s g = Inr (sk, gk) \<and> traffic_jam_detected sk))"
    proof
      assume "102 \<le> n \<and> (\<exists>k \<le> n. \<exists>sk gk. steps k s g = Inr (sk, gk) \<and> traffic_jam_detected sk)"
      then obtain k sk gk where big: "102 \<le> n" and k: "k \<le> n" and
        sk: "steps k s g = Inr (sk, gk)" and fk: "traffic_jam_detected sk" by blast
      from k have "n = k + (n - k)" by simp
      with fin have "steps (k + (n - k)) s g = Inr (s', g')" by simp
      from steps_sticky [OF sk fk this] have f: "traffic_jam_detected s'" .
      from big obtain m where m: "n = Suc m" by (cases n) simp_all
      with big have m2: "100 < m" by simp
      from m have m1: "m < n" by simp
      from fin m have "steps (Suc m) s g = Inr (s', g')" by simp
      from no [OF m1 m2 this] f show False by simp
    qed
    have "run_loop n 0 s g = Inr (False, s', g')" using rl False by simp
    moreover have "False \<longleftrightarrow> 102 \<le> n \<and> (\<exists>k \<le> n. \<exists>sk gk. steps k s g = Inr (sk, gk) \<and> traffic_jam_detected sk)"
      using neg by simp
    moreover have "if False then \<exists>j. 102 \<le> j \<and> j \<le> n \<and> steps j s g = Inr (s', g')
         else steps n s g = Inr (s', g')" using fin by (simp only: if_False)
    ultimately show ?thesis by blast
  qed
qed

lemma jam_after_iff:
  "jam_after s g k \<longleftrightarrow>
     (\<exists>sk gk. steps k (s\<lparr>traffic_jam_detected := False\<rparr>) g = Inr (sk, gk)
        \<and> traffic_jam_detected sk)"
  by (cases "steps k (s\<lparr>traffic_jam_detected := False\<rparr>) g") (auto simp: jam_after_def)

text \<open>
  What \<^verbatim>\<open>run(max_steps)\<close> returns: it clears the flag and calls \<^verbatim>\<open>step()\<close> repeatedly, each
  call returning. It returns true exactly when \<open>max_steps \<ge> 102\<close> and some tick among the
  first \<open>max_steps\<close>, a warm-up tick or a later one, leaves the flag set (no later tick
  clears it), and then after at least 102 ticks; otherwise it returns false after
  \<open>max_steps\<close> ticks. So for a run of 102 ticks or more the test \<^verbatim>\<open>step > 100\<close> delays the
  answer and never changes it.
\<close>

lemma run_true_iff_flag_set:
  "\<exists>r s' g'. run s g max_steps = Inr (r, s', g')
     \<and> (r \<longleftrightarrow> 102 \<le> max_steps \<and> (\<exists>k \<le> nat max_steps. jam_after s g k))
     \<and> (if r then \<exists>j. 102 \<le> j \<and> j \<le> nat max_steps
                     \<and> steps j (s\<lparr>traffic_jam_detected := False\<rparr>) g = Inr (s', g')
         else steps (nat max_steps) (s\<lparr>traffic_jam_detected := False\<rparr>) g = Inr (s', g'))"
proof -
  have n: "(102 \<le> max_steps) = (102 \<le> nat max_steps)" by arith
  show ?thesis
    unfolding run_def n jam_after_iff by (rule run_loop_flag)
qed

subsection \<open>An engine that jams in its first tick and is empty after the second\<close>

lemma jam_engine_tick1: "step (engine 4 43 1 0
     [Car_init 37 120 LEFT 125 True, Car_init 38 110 LEFT 115 True,
      Car_init 39 100 LEFT 105 True, Car_init (399/10) 90 LEFT 95 True] False) (draws [] [])
   = Inr (engine 4 43 1 0
     [Car_init (2903/72) (239/2) LEFT 125 True, Car_init (985/24) (219/2) LEFT 115 True,
      Car_init (3007/72) (199/2) LEFT 105 True, Car_init (7633/180) (451/5) LEFT 95 True] True, draws [] [])"
  by (simp add: query_defs step_defs rng_defs engine_def Car_init_def Let_def numeral_eq_Suc)

lemma jam_engine_tick2: "step (engine 4 43 1 0
     [Car_init (2903/72) (239/2) LEFT 125 True, Car_init (985/24) (219/2) LEFT 115 True,
      Car_init (3007/72) (199/2) LEFT 105 True, Car_init (7633/180) (451/5) LEFT 95 True] True) (draws [] [])
   = Inr (engine 4 43 1 0 [] True, draws [] [])"
  by (simp add: query_defs step_defs rng_defs engine_def Car_init_def Let_def numeral_eq_Suc)

lemma empty_engine_tick: "step (engine 4 43 1 0 [] b) (draws [] []) = Inr (engine 4 43 1 0 [] b, draws [] [])"
  by (simp add: query_defs step_defs rng_defs engine_def Car_init_def Let_def numeral_eq_Suc)

lemma jam_engine_init: "HighwaySimulation_init 4 43 1 0
     (draws [37, 125, 96/100, 1/2, 38, 115, 22/23, 1/2, 39, 105, 20/21, 1/2, 399/10, 95, 18/19, 1/2]
        [LEFT, LEFT, LEFT, LEFT])
   = Inr (engine 4 43 1 0
     [Car_init 37 120 LEFT 125 True, Car_init 38 110 LEFT 115 True,
      Car_init 39 100 LEFT 105 True, Car_init (399/10) 90 LEFT 95 True] False, draws [] [])"
  by (simp add: init_defs rng_defs engine_def Car_init_def numeral_eq_Suc)

lemma jam_engine_run: "run (engine 4 43 1 0
     [Car_init 37 120 LEFT 125 True, Car_init 38 110 LEFT 115 True,
      Car_init 39 100 LEFT 105 True, Car_init (399/10) 90 LEFT 95 True] False) (draws [] []) 102
   = Inr (True, engine 4 43 1 0 [] True, draws [] [])"
proof -
  have n: "nat 102 = Suc (Suc 100)" by simp
  have e: "engine 4 43 1 0 cs False\<lparr>traffic_jam_detected := False\<rparr> = engine 4 43 1 0 cs False" for cs
    by (simp add: engine_def)
  have "run (engine 4 43 1 0
     [Car_init 37 120 LEFT 125 True, Car_init 38 110 LEFT 115 True,
      Car_init 39 100 LEFT 105 True, Car_init (399/10) 90 LEFT 95 True] False) (draws [] []) 102
    = run_loop (Suc (Suc 100)) 0 (engine 4 43 1 0
     [Car_init 37 120 LEFT 125 True, Car_init 38 110 LEFT 115 True,
      Car_init 39 100 LEFT 105 True, Car_init (399/10) 90 LEFT 95 True] False) (draws [] [])"
    by (simp only: run_def n e)
  also have "\<dots> = run_loop (Suc 100) (Suc 0) (engine 4 43 1 0
     [Car_init (2903/72) (239/2) LEFT 125 True, Car_init (985/24) (219/2) LEFT 115 True,
      Car_init (3007/72) (199/2) LEFT 105 True, Car_init (7633/180) (451/5) LEFT 95 True] True)
      (draws [] [])"
    by (subst run_loop.simps) (simp add: jam_engine_tick1 del: run_loop.simps)
  also have "\<dots> = run_loop 100 (Suc (Suc 0)) (engine 4 43 1 0 [] True) (draws [] [])"
    by (subst run_loop.simps) (simp add: jam_engine_tick2 del: run_loop.simps)
  also have "\<dots> = Inr (True, engine 4 43 1 0 [] True, draws [] [])"
    by (subst run_loop_fixpoint [OF empty_engine_tick]) (simp add: engine_def)
  finally show ?thesis .
qed

text \<open>
  C3 (the code departs from the specification). The specification: \<^verbatim>\<open>run(max_steps)\<close>
  resets the flag, never returns true during the first 100 ticks, and returns false when
  the only jam condition arose during the warm-up. The source tests the flag only for
  \<^verbatim>\<open>step > 100\<close> ("Only check for jams after initial period (let traffic settle)"), but
  the flag that a warm-up tick has set is still set then. The engine below is what the
  constructor returns for the given draws: four cars in the Left lane within 3 m, each
  faster than the next. Its first tick finds three blocked cars and sets the flag; its
  second tick drives all four past the end of the 43 m highway, and with spawn
  probability 0 the collection stays empty, so that no later tick finds a jam (a tick of
  the empty engine with the flag clear leaves it clear). \<^verbatim>\<open>run(102)\<close> returns true.
\<close>

theorem warmup_jam_makes_run_true:
  "HighwaySimulation_init 4 43 1 0
     (draws [37, 125, 96/100, 1/2, 38, 115, 22/23, 1/2, 39, 105, 20/21, 1/2, 399/10, 95, 18/19, 1/2]
        [LEFT, LEFT, LEFT, LEFT])
   = Inr ((engine 4 43 1 0
     [Car_init 37 120 LEFT 125 True, Car_init 38 110 LEFT 115 True,
      Car_init 39 100 LEFT 105 True, Car_init (399/10) 90 LEFT 95 True] False), draws [] [])
   \<and> step (engine 4 43 1 0
     [Car_init 37 120 LEFT 125 True, Car_init 38 110 LEFT 115 True,
      Car_init 39 100 LEFT 105 True, Car_init (399/10) 90 LEFT 95 True] False) (draws [] [])
   = Inr ((engine 4 43 1 0
     [Car_init (2903/72) (239/2) LEFT 125 True, Car_init (985/24) (219/2) LEFT 115 True,
      Car_init (3007/72) (199/2) LEFT 105 True, Car_init (7633/180) (451/5) LEFT 95 True] True), draws [] [])
   \<and> step (engine 4 43 1 0
     [Car_init (2903/72) (239/2) LEFT 125 True, Car_init (985/24) (219/2) LEFT 115 True,
      Car_init (3007/72) (199/2) LEFT 105 True, Car_init (7633/180) (451/5) LEFT 95 True] True) (draws [] [])
   = Inr (engine 4 43 1 0 [] True, draws [] [])
   \<and> step (engine 4 43 1 0 [] False) (draws [] [])
   = Inr (engine 4 43 1 0 [] False, draws [] [])
   \<and> run (engine 4 43 1 0
     [Car_init 37 120 LEFT 125 True, Car_init 38 110 LEFT 115 True,
      Car_init 39 100 LEFT 105 True, Car_init (399/10) 90 LEFT 95 True] False) (draws [] []) 102
   = Inr (True, engine 4 43 1 0 [] True, draws [] [])"
  by (intro conjI jam_engine_init jam_engine_tick1 jam_engine_tick2 empty_engine_tick
      jam_engine_run)

section \<open>The lane policy\<close>

text \<open>
  The source applies the four rules in their order, never raises, and takes for the
  safety of a target lane the answer of its scan.
\<close>

lemma update_car_lane_scan_rules:
  "update_car_lane s g car
     = Inr (lane_rules (\<lambda>t. target_scan car (get_cars_in_lane s t)) s g car)"
proof -
  have r: "should_move_to_right s car
      = (lane car \<noteq> RIGHT \<and> target_scan car (get_cars_in_lane s (lane_right (lane car))))"
    by (cases "lane car") (simp_all add: should_move_to_right_def)
  have l: "can_pass_on_left s car
      = (lane car \<noteq> LEFT \<and> target_scan car (get_cars_in_lane s (lane_left (lane car))))"
    by (cases "lane car") (simp_all add: can_pass_on_left_def)
  show ?thesis
    unfolding update_car_lane_def lane_rules_def r l find_car_ahead_nearest
    by (simp add: move_lane_right move_lane_left Let_def split_beta)
qed

text \<open>
  On another lane than the car's own the scan is weaker than the safety of the
  specification: it agrees with it when no car of that lane is strictly ahead by less
  than 50 m.
\<close>

lemma target_scan_lane_safe:
  assumes "t \<noteq> lane car"
  shows "target_scan car (get_cars_in_lane s t) \<longleftrightarrow>
           lane_safe s car t
           \<or> (\<forall>other \<in> set (cars s). lane other = t \<longrightarrow>
                 \<not> (position other < position car \<and> position car - position other < 50))
             \<and> (\<exists>other \<in> set (cars s). lane other = t \<and> position car < position other
                   \<and> position other - position car < 50)"
proof -
  have "\<forall>other \<in> set (get_cars_in_lane s t). lane other \<noteq> lane car"
    using assms by (simp add: get_cars_in_lane_def)
  from target_scan_other_lane [OF this]
  have "target_scan car (get_cars_in_lane s t) \<longleftrightarrow>
          (\<forall>other \<in> set (cars s). lane other = t \<longrightarrow>
              \<not> (position other < position car \<and> position car - position other < 50))"
    by (auto simp: get_cars_in_lane_def)
  then show ?thesis unfolding lane_safe_def by (auto simp: not_less)
qed

text \<open>
  C4 (the code departs from the specification). The specification: the lane decision
  applies the four rules in priority order, and rule (1) and rule (4) move a car without
  bad practice one lane right only if the lane to the right is safe, rule (3) one lane
  left only if the lane to the left is safe. The source takes the answer of its scan for
  "safe", which misses the cars ahead (the defect of C1). The engine below is what the
  constructor returns for the given draws: a Middle car at 100 without bad practice and
  a Right car 20 m ahead of it. The Right lane is not safe for the Middle car and the
  four rules leave it in the Middle lane; \<^verbatim>\<open>_update_car_lane\<close> moves it to the Right lane.
\<close>

theorem lane_decision_moves_into_unsafe_lane:
  "HighwaySimulation_init 2 2000 0 (3/10)
      (draws [100, 110, 95/100, 1/2, 120, 110, 95/100, 1/2] [MIDDLE, RIGHT])
    = Inr (engine 2 2000 0 (3/10)
             [Car_init 100 (209/2) MIDDLE 110 False, Car_init 120 (209/2) RIGHT 110 False]
             False, draws [] [])
   \<and> lane_safe
        (engine 2 2000 0 (3/10)
           [Car_init 100 (209/2) MIDDLE 110 False, Car_init 120 (209/2) RIGHT 110 False] False)
        (Car_init 100 (209/2) MIDDLE 110 False) RIGHT = False
   \<and> lane_policy
        (engine 2 2000 0 (3/10)
           [Car_init 100 (209/2) MIDDLE 110 False, Car_init 120 (209/2) RIGHT 110 False] False)
        (draws [] []) (Car_init 100 (209/2) MIDDLE 110 False)
      = (Car_init 100 (209/2) MIDDLE 110 False, draws [] [])
   \<and> update_car_lane
        (engine 2 2000 0 (3/10)
           [Car_init 100 (209/2) MIDDLE 110 False, Car_init 120 (209/2) RIGHT 110 False] False)
        (draws [] []) (Car_init 100 (209/2) MIDDLE 110 False)
      = Inr (Car_init 100 (209/2) RIGHT 110 False, draws [] [])"
  by (simp add: init_defs rng_defs query_defs update_car_lane_def move_lane_def Lane_of_def
      lane_policy_def lane_rules_def lane_safe_def nearest_car_ahead_def
      engine_def Car_init_def numeral_2_eq_2)

text \<open>
  The same engine, read off the statement above: the Right car is in the target lane,
  strictly ahead of the Middle car and less than 50 m away, and the decision of the source
  is not the decision of the four rules.
\<close>

theorem lane_decision_moves_into_unsafe_lane_witness:
  "lane (Car_init 120 (209/2) RIGHT 110 False) = RIGHT
   \<and> position (Car_init 100 (209/2) MIDDLE 110 False)
       < position (Car_init 120 (209/2) RIGHT 110 False)
   \<and> \<not> 50 \<le> position (Car_init 120 (209/2) RIGHT 110 False)
              - position (Car_init 100 (209/2) MIDDLE 110 False)
   \<and> update_car_lane
        (engine 2 2000 0 (3/10)
           [Car_init 100 (209/2) MIDDLE 110 False, Car_init 120 (209/2) RIGHT 110 False] False)
        (draws [] []) (Car_init 100 (209/2) MIDDLE 110 False)
      \<noteq> Inr (lane_policy
        (engine 2 2000 0 (3/10)
           [Car_init 100 (209/2) MIDDLE 110 False, Car_init 120 (209/2) RIGHT 110 False] False)
        (draws [] []) (Car_init 100 (209/2) MIDDLE 110 False))"
proof -
  have "Car_init 100 (209/2) RIGHT 110 False \<noteq> Car_init 100 (209/2) MIDDLE 110 False"
    by (simp add: Car_init_def)
  moreover have "lane (Car_init 120 (209/2) RIGHT 110 False) = RIGHT"
    "position (Car_init 100 (209/2) MIDDLE 110 False)
       < position (Car_init 120 (209/2) RIGHT 110 False)"
    "\<not> 50 \<le> position (Car_init 120 (209/2) RIGHT 110 False)
              - position (Car_init 100 (209/2) MIDDLE 110 False)"
    by (simp_all add: Car_init_def)
  ultimately show ?thesis
    using lane_decision_moves_into_unsafe_lane by simp
qed

section \<open>Acceleration on a free lane\<close>

lemma cars_check_traffic_jam [simp]: "cars (check_traffic_jam s) = cars s"
  using check_traffic_jam_cases [of s] by auto

lemma survivor_in_cars:
  "x \<in> set A \<Longrightarrow> x \<in> set (cars (check_traffic_jam (s\<lparr>cars := sort_key position (A @ B)\<rparr>)))"
  by simp

lemma nearest_car_ahead_none:
  "\<forall>other \<in> set (cars s). lane other = lane car \<longrightarrow> position other \<le> position car
   \<Longrightarrow> nearest_car_ahead s car = None"
proof -
  assume a: "\<forall>other \<in> set (cars s). lane other = lane car \<longrightarrow> position other \<le> position car"
  have "filter (\<lambda>other. lane other = lane car \<and> position car < position other) (cars s) = []"
    using a by (auto simp: filter_empty_conv)
  then show ?thesis by (simp add: nearest_car_ahead_def)
qed

lemma update_car_speed_free:
  assumes "find_car_ahead s c = None" and "0 \<le> time_step s" and "0 \<le> speed c"
    and "0 \<le> max_speed c"
  shows "update_car_speed s c = c\<lparr>speed := min (speed c + 2 * time_step s) (max_speed c)\<rparr>"
proof -
  have "0 \<le> min (speed c + 2 * time_step s) (max_speed c)" using assms(2-4) by simp
  then show ?thesis using assms(1) by (simp add: update_car_speed_def max_def)
qed

text \<open>
  C5. For a car of non-negative speed and maximum speed (the domain of the data model,
  which the clamp of the speed update and the draws of \<^verbatim>\<open>_create_car\<close> keep) and a
  non-negative time step (the constructor fixes 0.1): whenever the speed update finds no
  car ahead in the car's lane, the new speed is \<open>min (speed + 2 \<times> time_step) max_speed\<close>;
  and in a simulation whose collection is this one car, one \<^verbatim>\<open>step()\<close> returns and
  increases the car's speed by exactly \<open>min (2 \<times> time_step) (max_speed - speed)\<close>: the
  three passes leave exactly this car, in some lane, with that speed and the position
  advanced accordingly, and it is in the collection after the step if it has not passed
  the end of the highway.
\<close>

theorem no_car_ahead_accelerates:
  assumes "0 \<le> time_step s" and "0 \<le> speed c" and "0 \<le> max_speed c"
  shows "(find_car_ahead s c = None \<longrightarrow>
            update_car_speed s c = c\<lparr>speed := min (speed c + 2 * time_step s) (max_speed c)\<rparr>)
     \<and> (cars s = [c] \<longrightarrow>
          (\<exists>l g1 s' g'.
             let v = speed c + min (2 * time_step s) (max_speed c - speed c);
                 c' = c\<lparr>lane := l, speed := v,
                        position := position c + v * time_step s * (1000 / 3600)\<rparr>
             in update_passes s g = Inr ([c'], g1)
                \<and> step s g = Inr (s', g')
                \<and> (position c' \<le> highway_length s \<longrightarrow> c' \<in> set (cars s'))))"
proof (intro conjI impI)
  assume "find_car_ahead s c = None"
  then show "update_car_speed s c = c\<lparr>speed := min (speed c + 2 * time_step s) (max_speed c)\<rparr>"
    using assms by (rule update_car_speed_free)
next
  assume single: "cars s = [c]"
  let ?live = "s\<lparr>cars := [] @ [c]\<rparr>"
  from update_car_lane_total [of ?live g c] obtain l g1 where
    upd: "update_car_lane ?live g c = Inr (c\<lparr>lane := l\<rparr>, g1)" by blast
  define c1 where "c1 = c\<lparr>lane := l\<rparr>"
  have lp: "lane_pass_loop s [] (cars s) g = Inr ([c1], g1)"
    using single upd by (simp add: c1_def)
  let ?s1 = "s\<lparr>cars := [] @ [c1]\<rparr>"
  have "nearest_car_ahead ?s1 c1 = None" by (rule nearest_car_ahead_none) simp
  then have none: "find_car_ahead ?s1 c1 = None" by (simp only: find_car_ahead_nearest)
  let ?v = "speed c + min (2 * time_step s) (max_speed c - speed c)"
  have v: "min (speed c1 + 2 * time_step ?s1) (max_speed c1) = ?v"
    by (simp add: c1_def min_def)
  have sp: "update_car_speed ?s1 c1 = c1\<lparr>speed := ?v\<rparr>"
    using update_car_speed_free [OF none] assms by (simp add: c1_def v [unfolded c1_def, simplified])
  let ?c' = "c\<lparr>lane := l, speed := ?v, position := position c + ?v * time_step s * (1000 / 3600)\<rparr>"
  have up: "update_passes s g = Inr ([?c'], g1)"
    using lp sp by (simp add: update_passes_def update_car_position_def c1_def)
  from step_structure [of s g] up obtain spw g2 where
    st: "step s g = Inr (check_traffic_jam
           (s\<lparr>cars := sort_key position (survivors s [?c'] @ spw)\<rparr>), g2)" by auto
  let ?s' = "check_traffic_jam (s\<lparr>cars := sort_key position (survivors s [?c'] @ spw)\<rparr>)"
  have mem: "position ?c' \<le> highway_length s \<longrightarrow> ?c' \<in> set (cars ?s')"
  proof
    assume "position ?c' \<le> highway_length s"
    then have "?c' \<in> set (survivors s [?c'])" by (simp add: survivors_def)
    then show "?c' \<in> set (cars ?s')" by (rule survivor_in_cars)
  qed
  show "\<exists>l g1 s' g'.
             let v = speed c + min (2 * time_step s) (max_speed c - speed c);
                 c' = c\<lparr>lane := l, speed := v,
                        position := position c + v * time_step s * (1000 / 3600)\<rparr>
             in update_passes s g = Inr ([c'], g1)
                \<and> step s g = Inr (s', g')
                \<and> (position c' \<le> highway_length s \<longrightarrow> c' \<in> set (cars s'))"
    unfolding Let_def using up st mem by blast
qed

text \<open>
  An instance: a single car at speed 95 with maximum speed 100 is at 95.2 after the
  speed update.
\<close>

theorem no_car_ahead_accelerates_witness:
  "0 \<le> time_step (engine 1 2000 0 (3/10) [Car_init 100 95 RIGHT 100 False] False)
   \<and> 0 \<le> speed (Car_init 100 95 RIGHT 100 False)
   \<and> 0 \<le> max_speed (Car_init 100 95 RIGHT 100 False)
   \<and> find_car_ahead (engine 1 2000 0 (3/10) [Car_init 100 95 RIGHT 100 False] False)
        (Car_init 100 95 RIGHT 100 False) = None
   \<and> update_car_speed (engine 1 2000 0 (3/10) [Car_init 100 95 RIGHT 100 False] False)
        (Car_init 100 95 RIGHT 100 False) = Car_init 100 (476/5) RIGHT 100 False"
proof -
  let ?c = "Car_init 100 95 RIGHT 100 False"
  let ?e = "engine 1 2000 0 (3/10) [?c] False"
  have h: "0 \<le> time_step ?e" "0 \<le> speed ?c" "0 \<le> max_speed ?c"
    by (simp_all add: engine_def Car_init_def)
  have none: "find_car_ahead ?e ?c = None"
    by (simp add: query_defs engine_def Car_init_def)
  from no_car_ahead_accelerates [OF h, of "draws [] []"] none
  have "update_car_speed ?e ?c = ?c\<lparr>speed := min (speed ?c + 2 * time_step ?e) (max_speed ?c)\<rparr>"
    by blast
  also have "\<dots> = Car_init 100 (476/5) RIGHT 100 False"
    by (simp add: engine_def Car_init_def)
  finally show ?thesis using h none by blast
qed

section \<open>Positions never decrease\<close>

text \<open>
  C6. For a non-negative time step (the constructor fixes 0.1), \<^verbatim>\<open>step()\<close> returns, and
  the three passes turn the collection, car by car and in the same order, into cars with
  a non-negative speed whose position is the old position plus exactly
  \<open>speed \<times> time_step \<times> (1000/3600)\<close> for the new speed, hence not smaller than before.
  The collection after the step is these cars without those past the end of the
  highway, together with the cars spawned in this tick, sorted by position: every car
  that survives the tick is one of them.
\<close>

theorem position_never_decreases:
  assumes "0 \<le> time_step s"
  shows "\<exists>cs3 g1 spawned s' g'.
           update_passes s g = Inr (cs3, g1)
           \<and> list_all2 (\<lambda>c c'. 0 \<le> speed c'
                  \<and> position c' = position c + speed c' * time_step s * (1000 / 3600)
                  \<and> position c \<le> position c') (cars s) cs3
           \<and> step s g = Inr (s', g')
           \<and> cars s' = sort_key position (survivors s cs3 @ spawned)"
proof -
  from step_structure [of s g] obtain cs3 g1 sp g2 where
    up: "update_passes s g = Inr (cs3, g1)" and
    st: "step s g = Inr (check_traffic_jam
           (s\<lparr>cars := sort_key position (survivors s cs3 @ sp)\<rparr>), g2)" by blast
  from update_passes_rel [of s g] up have rel: "list_all2 (tick_update s) (cars s) cs3" by auto
  have "0 \<le> speed c' \<and> position c' = position c + speed c' * time_step s * (1000 / 3600)
          \<and> position c \<le> position c'" if "tick_update s c c'" for c c'
  proof -
    from that have v: "0 \<le> speed c'" and
      c': "c' = c\<lparr>lane := lane c', speed := speed c',
                   position := position c + speed c' * time_step s * (1000 / 3600)\<rparr>"
      unfolding tick_update_def by blast+
    have "position c' = position (c\<lparr>lane := lane c', speed := speed c',
                   position := position c + speed c' * time_step s * (1000 / 3600)\<rparr>)"
      using c' by simp
    then have p: "position c' = position c + speed c' * time_step s * (1000 / 3600)" by simp
    have "0 \<le> speed c' * time_step s" using v assms by (rule mult_nonneg_nonneg)
    then have "0 \<le> speed c' * time_step s * (1000 / 3600)" by simp
    then show ?thesis using v p by simp
  qed
  with rel have "list_all2 (\<lambda>c c'. 0 \<le> speed c'
                  \<and> position c' = position c + speed c' * time_step s * (1000 / 3600)
                  \<and> position c \<le> position c') (cars s) cs3"
    by (rule list_all2_mono)
  moreover have "cars (check_traffic_jam
           (s\<lparr>cars := sort_key position (survivors s cs3 @ sp)\<rparr>))
       = sort_key position (survivors s cs3 @ sp)" by simp
  ultimately show ?thesis using up st by blast
qed

text \<open>
  An instance: the engine with one car at position 100 and speed 95.
\<close>

theorem position_never_decreases_witness:
  "0 \<le> time_step (engine 1 2000 0 (3/10) [Car_init 100 95 RIGHT 100 False] False)
   \<and> (\<exists>cs3 g1 spawned s' g'.
        update_passes (engine 1 2000 0 (3/10) [Car_init 100 95 RIGHT 100 False] False)
          (draws [] []) = Inr (cs3, g1)
        \<and> list_all2 (\<lambda>c c'. 0 \<le> speed c'
               \<and> position c' = position c + speed c' * (1/10) * (1000 / 3600)
               \<and> position c \<le> position c') [Car_init 100 95 RIGHT 100 False] cs3
        \<and> step (engine 1 2000 0 (3/10) [Car_init 100 95 RIGHT 100 False] False)
             (draws [] []) = Inr (s', g')
        \<and> cars s' = sort_key position
             (survivors (engine 1 2000 0 (3/10) [Car_init 100 95 RIGHT 100 False] False) cs3
                @ spawned))"
proof -
  let ?e = "engine 1 2000 0 (3/10) [Car_init 100 95 RIGHT 100 False] False"
  have h: "0 \<le> time_step ?e" by (simp add: engine_def)
  have t: "time_step ?e = 1/10" and c: "cars ?e = [Car_init 100 95 RIGHT 100 False]"
    by (simp_all add: engine_def)
  from position_never_decreases [OF h, of "draws [] []"] h show ?thesis
    unfolding t c by blast
qed

section \<open>The car count\<close>

lemma step_count:
  assumes "step s g = Inr (s', g')" and "int (length (cars s)) \<le> num_cars s"
  shows "num_cars s' = num_cars s \<and> int (length (cars s')) \<le> num_cars s'"
proof -
  from step_structure [of s g] assms(1) obtain cs3 g1 sp where
    up: "update_passes s g = Inr (cs3, g1)" and
    len: "int (length sp) \<le> max 0 (num_cars s - int (length (survivors s cs3)))" and
    s': "s' = check_traffic_jam (s\<lparr>cars := sort_key position (survivors s cs3 @ sp)\<rparr>)"
    by auto
  from update_passes_rel [of s g] up have "length cs3 = length (cars s)"
    by (auto dest: list_all2_lengthD)
  moreover have "length (survivors s cs3) \<le> length cs3" by (simp add: survivors_def)
  ultimately have "int (length (survivors s cs3)) \<le> num_cars s" using assms(2) by linarith
  with len have "int (length (survivors s cs3)) + int (length sp) \<le> num_cars s" by linarith
  moreover have "num_cars s' = num_cars s" using step_fields [OF assms(1)] by simp
  moreover have "length (cars s') = length (survivors s cs3) + length sp" by (simp add: s')
  ultimately show ?thesis by simp
qed

lemma steps_count:
  assumes "int (length (cars s)) \<le> num_cars s"
  shows "\<exists>sk gk. steps k s g = Inr (sk, gk) \<and> num_cars sk = num_cars s
            \<and> int (length (cars sk)) \<le> num_cars s"
  using assms
proof (induction k arbitrary: s g)
  case 0
  then show ?case by simp
next
  case (Suc k)
  from step_total obtain s1 g1 where s1: "step s g = Inr (s1, g1)" by blast
  from step_count [OF s1 Suc.prems] have n: "num_cars s1 = num_cars s"
    and l: "int (length (cars s1)) \<le> num_cars s1" by simp_all
  from Suc.IH [OF l, of g1] show ?case using s1 n by simp
qed

lemma init_count:
  "\<exists>s0 g0. HighwaySimulation_init n len ratio sp g = Inr (s0, g0) \<and> num_cars s0 = n
      \<and> highway_length s0 = len \<and> bad_practice_ratio s0 = ratio \<and> spawn_probability s0 = sp
      \<and> time_step s0 = 1/10 \<and> \<not> traffic_jam_detected s0 \<and> length (cars s0) = nat n"
proof -
  let ?e = "\<lparr>num_cars = n, highway_length = len, bad_practice_ratio = ratio,
        spawn_probability = sp, cars = [], time_step = 1/10, traffic_jam_detected = False\<rparr>"
  obtain s1 g1 where il: "initialize_loop (nat n) ?e g = (s1, g1)"
    by (cases "initialize_loop (nat n) ?e g")
  from initialize_loop_cars [of "nat n" ?e g] il obtain cs where
    s1: "s1 = ?e\<lparr>cars := cars ?e @ cs\<rparr>" and len: "length cs = nat n" by auto
  have "HighwaySimulation_init n len ratio sp g = Inr (s1\<lparr>cars := sort_key position (cars s1)\<rparr>, g1)"
    using il by (simp add: HighwaySimulation_init_def initialize_cars_def)
  then show ?thesis using s1 len by simp
qed

text \<open>
  C7. For a non-negative target count \<open>n\<close>, construction returns an engine with exactly
  \<open>n\<close> cars, and after every number of subsequent ticks (each of which returns) the
  collection holds at most \<open>n\<close> cars. Spawning only appends cars to the collection, at
  most one per missing slot, where \<open>missing = num_cars - len(cars)\<close> (none when that is
  negative). A negative target, which the constructor accepts (see C8), gives an empty
  collection and is excluded here.
\<close>

theorem car_count_never_exceeds_target:
  assumes "0 \<le> n"
  shows "(\<exists>s0 g0. HighwaySimulation_init n len ratio sp g = Inr (s0, g0)
            \<and> num_cars s0 = n \<and> int (length (cars s0)) = n
            \<and> (\<forall>k. \<exists>sk gk. steps k s0 g0 = Inr (sk, gk) \<and> num_cars sk = n
                     \<and> int (length (cars sk)) \<le> n))
     \<and> (\<exists>spawned. fst (spawn_new_cars_if_needed s h) = s\<lparr>cars := cars s @ spawned\<rparr>
            \<and> int (length spawned) \<le> max 0 (num_cars s - int (length (cars s))))"
proof
  from init_count [of n len ratio sp g] obtain s0 g0 where
    i: "HighwaySimulation_init n len ratio sp g = Inr (s0, g0)" and
    n: "num_cars s0 = n" and l: "length (cars s0) = nat n" by blast
  from l assms have l': "int (length (cars s0)) = n" by simp
  then have "int (length (cars s0)) \<le> num_cars s0" using n by simp
  from steps_count [OF this] n
  have "\<forall>k. \<exists>sk gk. steps k s0 g0 = Inr (sk, gk) \<and> num_cars sk = n
                     \<and> int (length (cars sk)) \<le> n" by simp
  with i n l' show "\<exists>s0 g0. HighwaySimulation_init n len ratio sp g = Inr (s0, g0)
            \<and> num_cars s0 = n \<and> int (length (cars s0)) = n
            \<and> (\<forall>k. \<exists>sk gk. steps k s0 g0 = Inr (sk, gk) \<and> num_cars sk = n
                     \<and> int (length (cars sk)) \<le> n)" by blast
next
  let ?m = "nat (num_cars s - int (length (cars s)))"
  from spawn_loop_cars [of ?m s h] obtain spw where
    "fst (spawn_loop ?m s h) = s\<lparr>cars := cars s @ spw\<rparr>" and "length spw \<le> ?m" by blast
  then have "fst (spawn_new_cars_if_needed s h) = s\<lparr>cars := cars s @ spw\<rparr>
      \<and> int (length spw) \<le> max 0 (num_cars s - int (length (cars s)))"
    by (simp add: spawn_new_cars_if_needed_def)
  then show "\<exists>spawned. fst (spawn_new_cars_if_needed s h) = s\<lparr>cars := cars s @ spawned\<rparr>
            \<and> int (length spawned) \<le> max 0 (num_cars s - int (length (cars s)))" ..
qed

text \<open>
  An instance: the target count 2.
\<close>

theorem car_count_never_exceeds_target_witness:
  "(0::int) \<le> 2
   \<and> (\<exists>s0 g0. HighwaySimulation_init 2 2000 0 (3/10) (draws [] []) = Inr (s0, g0)
         \<and> num_cars s0 = 2 \<and> int (length (cars s0)) = 2
         \<and> (\<forall>k. \<exists>sk gk. steps k s0 g0 = Inr (sk, gk) \<and> num_cars sk = 2
                  \<and> int (length (cars sk)) \<le> 2))"
proof -
  have h: "(0::int) \<le> 2" by simp
  from car_count_never_exceeds_target [OF h, of 2000 0 "3/10" "draws [] []"] h
  show ?thesis by blast
qed

section \<open>Construction performs no validation\<close>

text \<open>
  C8 (counterexample). The specification: construction with a negative car count, a bad-practice
  ratio outside \<open>[0, 1]\<close> or a non-positive highway length fails with a configuration
  error. The constructor has no check and no \<^verbatim>\<open>raise\<close>: with the count -1 it returns an
  engine with no cars, with the ratio 1.5 and with the length -5 it returns an engine
  holding the value as given.
\<close>

theorem init_accepts_invalid_parameters:
  "HighwaySimulation_init (- 1) 2000 0 (3/10) (draws [] [])
     = Inr (engine (- 1) 2000 0 (3/10) [] False, draws [] [])
   \<and> HighwaySimulation_init 1 2000 (3/2) (3/10) (draws [100, 100, 95/100, 1/2] [RIGHT])
     = Inr (engine 1 2000 (3/2) (3/10) [Car_init 100 95 RIGHT 100 True] False, draws [] [])
   \<and> HighwaySimulation_init 1 (- 5) 0 (3/10) (draws [- 5/2, 100, 95/100, 1/2] [RIGHT])
     = Inr (engine 1 (- 5) 0 (3/10) [Car_init (- 5/2) 95 RIGHT 100 False] False, draws [] [])"
  by (simp add: init_defs rng_defs engine_def Car_init_def)

text \<open>
  C8 (as amended). Construction never raises: for every car count, highway length,
  bad-practice ratio and spawn probability, valid or not, it returns an engine that holds
  the four values as given, with \<open>max 0 num_cars\<close> cars.
\<close>

theorem init_never_raises:
  "\<exists>s0 g0. HighwaySimulation_init n len ratio sp g = Inr (s0, g0)
      \<and> num_cars s0 = n \<and> highway_length s0 = len \<and> bad_practice_ratio s0 = ratio
      \<and> spawn_probability s0 = sp \<and> length (cars s0) = nat n"
  using init_count [of n len ratio sp g] by blast

section \<open>The generator is the process-global one\<close>

lemma create_car_draws:
  "create_car s None None g =
     (\<lparr>position = floats g !! 0, speed = floats g !! 1 * floats g !! 2, lane = shd (lanes g),
       max_speed = floats g !! 1,
       follows_bad_practice = (floats g !! 3 < bad_practice_ratio s)\<rparr>,
      g\<lparr>floats := sdrop 4 (floats g), lanes := stl (lanes g)\<rparr>)"
  by (simp add: create_car_def rng_defs eval_nat_numeral)

lemma stake_eq_snth:
  "stake n a = stake n b \<longleftrightarrow> (\<forall>i < n. a !! i = b !! i)"
proof
  assume eq: "stake n a = stake n b"
  show "\<forall>i < n. a !! i = b !! i"
  proof (intro allI impI)
    fix i assume "i < n"
    then have "a !! i = stake n a ! i" "b !! i = stake n b ! i" by simp_all
    with eq show "a !! i = b !! i" by simp
  qed
next
  assume "\<forall>i < n. a !! i = b !! i"
  then show "stake n a = stake n b"
    by (intro nth_equalityI) simp_all
qed

lemma initialize_loop_draws:
  assumes "\<forall>i < 4 * n. floats g !! i = floats g' !! i"
    and "\<forall>i < n. lanes g !! i = lanes g' !! i"
  shows "fst (initialize_loop n s g) = fst (initialize_loop n s g')
     \<and> floats (snd (initialize_loop n s g)) = sdrop (4 * n) (floats g)
     \<and> lanes (snd (initialize_loop n s g)) = sdrop n (lanes g)"
  using assms
proof (induction n arbitrary: s g g')
  case 0
  show ?case by simp
next
  case (Suc n)
  let ?mk = "\<lambda>h. \<lparr>position = floats h !! 0, speed = floats h !! 1 * floats h !! 2,
       lane = shd (lanes h), max_speed = floats h !! 1,
       follows_bad_practice = (floats h !! 3 < bad_practice_ratio s)\<rparr>"
  let ?c = "?mk g"
  let ?g1 = "g\<lparr>floats := sdrop 4 (floats g), lanes := stl (lanes g)\<rparr>"
  let ?g1' = "g'\<lparr>floats := sdrop 4 (floats g'), lanes := stl (lanes g')\<rparr>"
  have f: "floats g !! i = floats g' !! i" if "i < 4 * n + 4" for i
    using Suc.prems(1) that by simp
  have l: "lanes g !! i = lanes g' !! i" if "i < Suc n" for i
    using Suc.prems(2) that by simp
  have "floats g !! 0 = floats g' !! 0" "floats g !! 1 = floats g' !! 1"
    "floats g !! 2 = floats g' !! 2" "floats g !! 3 = floats g' !! 3"
    by (simp_all add: f del: snth.simps)
  moreover have "shd (lanes g) = shd (lanes g')" using l [of 0] by simp
  ultimately have same: "?mk g' = ?c" by (simp del: snth.simps)
  have a: "\<forall>i < 4 * n. floats ?g1 !! i = floats ?g1' !! i"
    using f by (simp add: sdrop_snth)
  have b: "\<forall>i < n. lanes ?g1 !! i = lanes ?g1' !! i"
    using l [of "Suc _"] by simp
  from Suc.IH [OF a b, of "s\<lparr>cars := cars s @ [?c]\<rparr>"]
  have ih: "fst (initialize_loop n (s\<lparr>cars := cars s @ [?c]\<rparr>) ?g1)
            = fst (initialize_loop n (s\<lparr>cars := cars s @ [?c]\<rparr>) ?g1')"
    and fl: "floats (snd (initialize_loop n (s\<lparr>cars := cars s @ [?c]\<rparr>) ?g1))
            = sdrop (4 * n) (floats ?g1)"
    and la: "lanes (snd (initialize_loop n (s\<lparr>cars := cars s @ [?c]\<rparr>) ?g1))
            = sdrop n (lanes ?g1)" by simp_all
  have u: "initialize_loop (Suc n) s g = initialize_loop n (s\<lparr>cars := cars s @ [?c]\<rparr>) ?g1"
    by (simp only: initialize_loop.simps create_car_draws Let_def prod.case)
  have "initialize_loop (Suc n) s g' = initialize_loop n (s\<lparr>cars := cars s @ [?mk g']\<rparr>) ?g1'"
    by (simp only: initialize_loop.simps create_car_draws Let_def prod.case)
  then have u': "initialize_loop (Suc n) s g' = initialize_loop n (s\<lparr>cars := cars s @ [?c]\<rparr>) ?g1'"
    by (simp only: same)
  have "sdrop (4 * n) (floats ?g1) = sdrop (4 * Suc n) (floats g)"
    by (simp add: add.commute)
  moreover have "sdrop n (lanes ?g1) = sdrop (Suc n) (lanes g)" by simp
  ultimately show ?case unfolding u u' using ih fl la by simp
qed

text \<open>
  C9 (counterexample). The specification: the engine owns a seedable generator given at construction
  (an optional seed parameter), and two engines constructed with identical parameters
  and the same seed produce identical runs. The constructor has no seed parameter and
  the engine no generator of its own: every draw is a call of a module-level function of
  \<^verbatim>\<open>random\<close>, whose state the whole process shares. Two engines constructed one after
  the other with identical parameters therefore differ: the first construction leaves
  the generator advanced, and the second draws other values.
\<close>

theorem same_parameters_different_engines:
  "HighwaySimulation_init 1 2000 0 (3/10)
      (draws [100, 100, 95/100, 1/2, 300, 120, 95/100, 1/2] [RIGHT, LEFT])
    = Inr (engine 1 2000 0 (3/10) [Car_init 100 95 RIGHT 100 False] False,
           draws [300, 120, 95/100, 1/2] [LEFT])
   \<and> HighwaySimulation_init 1 2000 0 (3/10) (draws [300, 120, 95/100, 1/2] [LEFT])
    = Inr (engine 1 2000 0 (3/10) [Car_init 300 114 LEFT 120 False] False, draws [] [])
   \<and> engine 1 2000 0 (3/10) [Car_init 100 95 RIGHT 100 False] False
      \<noteq> engine 1 2000 0 (3/10) [Car_init 300 114 LEFT 120 False] False"
  by (simp add: init_defs rng_defs engine_def Car_init_def)

text \<open>
  C9 (as amended). What an engine does is determined by its construction parameters
  together with the state of the process-global generator at the time: construction
  with target count \<open>n\<close> consumes the next \<open>4 \<times> n\<close> float draws and \<open>n\<close> lane draws of the
  global generator and leaves it advanced by that many, and two constructions with
  identical parameters from generator states that agree on these draws return the same
  engine. (Every operation of the model is a function of the engine state and the
  generator state, so equal states give equal runs.)
\<close>

theorem construction_determined_by_global_draws:
  assumes "stake (4 * nat n) (floats g) = stake (4 * nat n) (floats g')"
    and "stake (nat n) (lanes g) = stake (nat n) (lanes g')"
  shows "\<exists>s0 g0 g0'.
           HighwaySimulation_init n len ratio sp g = Inr (s0, g0)
           \<and> HighwaySimulation_init n len ratio sp g' = Inr (s0, g0')
           \<and> floats g0 = sdrop (4 * nat n) (floats g)
           \<and> lanes g0 = sdrop (nat n) (lanes g)"
proof -
  let ?e = "\<lparr>num_cars = n, highway_length = len, bad_practice_ratio = ratio,
        spawn_probability = sp, cars = [], time_step = 1/10, traffic_jam_detected = False\<rparr>"
  from assms have a: "\<forall>i < 4 * nat n. floats g !! i = floats g' !! i"
    and b: "\<forall>i < nat n. lanes g !! i = lanes g' !! i" by (simp_all add: stake_eq_snth)
  note d = initialize_loop_draws [OF a b, of ?e]
  obtain s1 g1 where i1: "initialize_loop (nat n) ?e g = (s1, g1)"
    by (cases "initialize_loop (nat n) ?e g")
  obtain s1' g1' where i2: "initialize_loop (nat n) ?e g' = (s1', g1')"
    by (cases "initialize_loop (nat n) ?e g'")
  from d i1 i2 have eq: "s1' = s1" and fl: "floats g1 = sdrop (4 * nat n) (floats g)"
    and la: "lanes g1 = sdrop (nat n) (lanes g)" by simp_all
  have "HighwaySimulation_init n len ratio sp g = Inr (s1\<lparr>cars := sort_key position (cars s1)\<rparr>, g1)"
    using i1 by (simp add: HighwaySimulation_init_def initialize_cars_def)
  moreover have "HighwaySimulation_init n len ratio sp g' = Inr (s1\<lparr>cars := sort_key position (cars s1)\<rparr>, g1')"
    using i2 eq by (simp add: HighwaySimulation_init_def initialize_cars_def)
  ultimately show ?thesis using fl la by blast
qed

text \<open>
  An instance: two generator states that agree on the four float draws and the lane
  draw of the one car and differ afterwards.
\<close>

theorem construction_determined_by_global_draws_witness:
  "stake (4 * nat 1) (floats (draws [100, 100, 95/100, 1/2, 7] [RIGHT, LEFT]))
     = stake (4 * nat 1) (floats (draws [100, 100, 95/100, 1/2, 8] [RIGHT, MIDDLE]))
   \<and> stake (nat 1) (lanes (draws [100, 100, 95/100, 1/2, 7] [RIGHT, LEFT]))
     = stake (nat 1) (lanes (draws [100, 100, 95/100, 1/2, 8] [RIGHT, MIDDLE]))
   \<and> (\<exists>s0 g0 g0'.
         HighwaySimulation_init 1 2000 0 (3/10) (draws [100, 100, 95/100, 1/2, 7] [RIGHT, LEFT])
           = Inr (s0, g0)
         \<and> HighwaySimulation_init 1 2000 0 (3/10) (draws [100, 100, 95/100, 1/2, 8] [RIGHT, MIDDLE])
           = Inr (s0, g0'))"
proof -
  have a: "stake (4 * nat 1) (floats (draws [100, 100, 95/100, 1/2, 7] [RIGHT, LEFT]))
     = stake (4 * nat 1) (floats (draws [100, 100, 95/100, 1/2, 8] [RIGHT, MIDDLE]))"
    by (simp add: draws_def eval_nat_numeral)
  have b: "stake (nat 1) (lanes (draws [100, 100, 95/100, 1/2, 7] [RIGHT, LEFT]))
     = stake (nat 1) (lanes (draws [100, 100, 95/100, 1/2, 8] [RIGHT, MIDDLE]))"
    by (simp add: draws_def)
  from construction_determined_by_global_draws [OF a b, of 2000 0 "3/10"] a b
  show ?thesis by blast
qed

section \<open>Cars at the same position\<close>

lemma nearest_car_ahead_colocated:
  assumes "position d = position c"
  shows "nearest_car_ahead (s\<lparr>cars := xs @ d # ys\<rparr>) c
       = nearest_car_ahead (s\<lparr>cars := xs @ ys\<rparr>) c"
  using assms by (simp add: nearest_car_ahead_def)

lemma can_pass_on_left_same_lane:
  assumes "lane d = lane c"
  shows "can_pass_on_left (s\<lparr>cars := xs @ d # ys\<rparr>) c
       = can_pass_on_left (s\<lparr>cars := xs @ ys\<rparr>) c"
  using assms by (cases "lane c") (simp_all add: can_pass_on_left_def get_cars_in_lane_def)

lemma time_step_cars_update: "time_step (s\<lparr>cars := cs\<rparr>) = time_step s"
  by simp

lemma is_blocked_free: "find_car_ahead s c = None \<Longrightarrow> \<not> is_blocked s c"
  by (simp add: is_blocked_def)

text \<open>
  C10. For two cars \<open>c\<close> and \<open>d\<close> in the same lane at exactly the same position, neither
  is ahead of the other; the car found ahead of \<open>c\<close>, \<^verbatim>\<open>is_blocked\<close> on \<open>c\<close> and the
  speed update of \<open>c\<close> are the same with and without \<open>d\<close> in the collection; and if no
  other car of that lane is at a strictly greater position, \<^verbatim>\<open>is_blocked\<close> is false for
  both and both accelerate: the new speed is \<open>min (speed + 2 \<times> time_step) max_speed\<close>
  (clamped at 0).
\<close>

theorem colocated_car_is_ignored:
  assumes "lane d = lane c" and "position d = position c"
  shows "\<not> is_car_ahead c d \<and> \<not> is_car_ahead d c
     \<and> find_car_ahead (s\<lparr>cars := xs @ d # ys\<rparr>) c = find_car_ahead (s\<lparr>cars := xs @ ys\<rparr>) c
     \<and> is_blocked (s\<lparr>cars := xs @ d # ys\<rparr>) c = is_blocked (s\<lparr>cars := xs @ ys\<rparr>) c
     \<and> update_car_speed (s\<lparr>cars := xs @ d # ys\<rparr>) c
         = update_car_speed (s\<lparr>cars := xs @ ys\<rparr>) c
     \<and> ((\<forall>other \<in> set (xs @ ys). lane other = lane c \<longrightarrow> position other \<le> position c) \<longrightarrow>
           \<not> is_blocked (s\<lparr>cars := xs @ d # ys\<rparr>) c
           \<and> \<not> is_blocked (s\<lparr>cars := xs @ d # ys\<rparr>) d
           \<and> speed (update_car_speed (s\<lparr>cars := xs @ d # ys\<rparr>) c)
               = max 0 (min (speed c + 2 * time_step s) (max_speed c))
           \<and> speed (update_car_speed (s\<lparr>cars := xs @ d # ys\<rparr>) d)
               = max 0 (min (speed d + 2 * time_step s) (max_speed d)))"
proof -
  let ?s = "s\<lparr>cars := xs @ d # ys\<rparr>" and ?t = "s\<lparr>cars := xs @ ys\<rparr>"
  have ahead: "\<not> is_car_ahead c d \<and> \<not> is_car_ahead d c"
    using assms(2) by (simp add: is_car_ahead_def)
  have find: "find_car_ahead ?s c = find_car_ahead ?t c"
    unfolding find_car_ahead_nearest using assms(2) by (rule nearest_car_ahead_colocated)
  have pass: "can_pass_on_left ?s c = can_pass_on_left ?t c"
    using assms(1) by (rule can_pass_on_left_same_lane)
  have blocked: "is_blocked ?s c = is_blocked ?t c"
    by (simp only: is_blocked_def find pass)
  have speed: "update_car_speed ?s c = update_car_speed ?t c"
    by (simp only: update_car_speed_def find time_step_cars_update)
  have free: "\<not> is_blocked ?s c \<and> \<not> is_blocked ?s d
           \<and> speed (update_car_speed ?s c) = max 0 (min (speed c + 2 * time_step s) (max_speed c))
           \<and> speed (update_car_speed ?s d) = max 0 (min (speed d + 2 * time_step s) (max_speed d))"
    if none: "\<forall>other \<in> set (xs @ ys). lane other = lane c \<longrightarrow> position other \<le> position c"
  proof -
    have "\<forall>other \<in> set (cars ?s). lane other = lane c \<longrightarrow> position other \<le> position c"
      using none assms(2) by auto
    then have c: "find_car_ahead ?s c = None"
      unfolding find_car_ahead_nearest by (rule nearest_car_ahead_none)
    have "\<forall>other \<in> set (cars ?s). lane other = lane d \<longrightarrow> position other \<le> position d"
      using none assms by auto
    then have d: "find_car_ahead ?s d = None"
      unfolding find_car_ahead_nearest by (rule nearest_car_ahead_none)
    show ?thesis
      using is_blocked_free [OF c] is_blocked_free [OF d]
      by (simp add: update_car_speed_def c d)
  qed
  from ahead find blocked speed free show ?thesis by blast
qed

text \<open>
  An instance: two cars of the Right lane at position 100.
\<close>

theorem colocated_car_is_ignored_witness:
  "lane (Car_init 100 90 RIGHT 95 False) = lane (Car_init 100 100 RIGHT 110 False)
   \<and> position (Car_init 100 90 RIGHT 95 False) = position (Car_init 100 100 RIGHT 110 False)
   \<and> \<not> is_blocked
        (engine 2 2000 0 (3/10)
           [Car_init 100 100 RIGHT 110 False, Car_init 100 90 RIGHT 95 False] False)
        (Car_init 100 100 RIGHT 110 False)
   \<and> speed (update_car_speed
        (engine 2 2000 0 (3/10)
           [Car_init 100 100 RIGHT 110 False, Car_init 100 90 RIGHT 95 False] False)
        (Car_init 100 100 RIGHT 110 False)) = 501/5"
proof -
  let ?c = "Car_init 100 100 RIGHT 110 False" and ?d = "Car_init 100 90 RIGHT 95 False"
  let ?e = "engine 2 2000 0 (3/10) [] False"
  have h: "lane ?d = lane ?c" "position ?d = position ?c" by (simp_all add: Car_init_def)
  have e: "?e\<lparr>cars := [?c] @ ?d # []\<rparr> = engine 2 2000 0 (3/10) [?c, ?d] False"
    by (simp add: engine_def)
  have n: "\<forall>other \<in> set ([?c] @ []). lane other = lane ?c \<longrightarrow> position other \<le> position ?c"
    by simp
  from colocated_car_is_ignored [OF h, where s = ?e and xs = "[?c]" and ys = "[]"] n
  have "\<not> is_blocked (?e\<lparr>cars := [?c] @ ?d # []\<rparr>) ?c"
    and "speed (update_car_speed (?e\<lparr>cars := [?c] @ ?d # []\<rparr>) ?c)
               = max 0 (min (speed ?c + 2 * time_step ?e) (max_speed ?c))" by blast+
  then show ?thesis using h unfolding e by (simp add: engine_def Car_init_def)
qed

end
